theory Spec2Isabelle
  imports Complex_Main "HOL-Library.Multiset"
begin

section \<open>Conventions\<close>

text \<open>
  The development embeds the per-frame parameter pipeline of \<^verbatim>\<open>live2DBridge.cpp\<close>.
  A C \<^verbatim>\<open>float\<close> is read as a real number. Where a property depends on the rounding of
  the float operations, in the evaluation of a motion curve and in the fade of the pose
  layer, the rounding is a parameter \<open>rnd\<close> of the embedding, applied to the result of
  every float operation on its own (no operation is fused with another): each statement
  holds for every rounding function, or for every rounding function with a stated
  property. The identity is exact arithmetic, and
  \<open>binary32\<close> is the rounding to the nearest IEEE 754 single precision number.
  Elsewhere the arithmetic is read as exact; the one place where the range of
  \<^verbatim>\<open>float\<close> matters, \<^verbatim>\<open>normalizePhysInput\<close>, has a second embedding with overflow to the
  infinities and NaN. A C \<^verbatim>\<open>int\<close> is an \<^typ>\<open>int\<close> (the code only compares and indexes
  with them). A \<^verbatim>\<open>const char*\<close> argument is a \<^typ>\<open>string option\<close>, \<^term>\<open>None\<close> being the
  null pointer. A \<^verbatim>\<open>std::map\<close> that is only searched is a partial function; the arrays
  owned by the Cubism core are stores from indices to values. The global variables of the
  file are the fields of one record, each under its own name.
\<close>

section \<open>Rounding of float operations\<close>

text \<open>
  The rounding of a real number to the nearest binary32 number, a tie going to the even
  significand. \<open>binary32_exponent x\<close> is the exponent of the binade of \<open>x\<close>, not below
  the exponent -126 of the subnormal numbers; the result is the multiple of the unit in
  the last place, \<open>2 powr (e - 23)\<close>, that is nearest to \<open>x\<close>. Overflow to an infinity
  is not part of this function.
\<close>

definition round_even :: "real \<Rightarrow> int" where
  "round_even x =
     (let f = \<lfloor>x\<rfloor>; r = x - of_int f
      in if r < 1/2 then f else if r > 1/2 then f + 1 else if even f then f else f + 1)"

definition binary32_exponent :: "real \<Rightarrow> int" where
  "binary32_exponent x = max \<lfloor>log 2 \<bar>x\<bar>\<rfloor> (- 126)"

definition binary32 :: "real \<Rightarrow> real" where
  "binary32 x =
     (if x = 0 then 0
      else (let u = 2 powr (of_int (binary32_exponent x) - 23)
            in of_int (round_even (x / u)) * u))"

section \<open>Data model\<close>

record MotionKeyframe =
  kf_time :: real
  kf_value :: real

record MotionCurve =
  paramId :: string
  keyframes :: "MotionKeyframe list"

record MotionData =
  duration :: real
  loop :: bool
  fadeInTime :: real
  fadeOutTime :: real
  curves :: "MotionCurve list"

datatype ExprBlend = Add | Multiply | Overwrite

record ExprParam =
  ep_paramId :: string
  ep_value :: real
  ep_blend :: ExprBlend

record ExpressionData =
  expr_name :: string
  expr_params :: "ExprParam list"

record MotionEntry =
  me_file :: string

record PosePartInfo =
  partIndex :: int
  linkIndices :: "int list"

record PhysVec2 =
  vx :: real
  vy :: real

record PhysInput =
  sourceIdx :: int
  in_weight :: real
  in_type :: int
  in_reflect :: bool

record PhysOutput =
  destIdx :: int
  vertexIndex :: int
  out_scale :: real
  out_weight :: real
  out_reflect :: bool

record PhysParticle =
  position :: PhysVec2
  lastPosition :: PhysVec2
  velocity :: PhysVec2
  force :: PhysVec2
  lastGravity :: PhysVec2
  mobility :: real
  delay :: real
  acceleration :: real
  radius :: real

record PhysNorm =
  posMin :: real
  posDef :: real
  posMax :: real
  angMin :: real
  angDef :: real
  angMax :: real

record PhysSubRig =
  inputs :: "PhysInput list"
  outputs :: "PhysOutput list"
  particles :: "PhysParticle list"
  sub_norm :: PhysNorm

record PhysicsRig =
  settings :: "PhysSubRig list"
  gravity :: PhysVec2
  wind :: PhysVec2
  fps :: real
  phys_loaded :: bool

text \<open>
  The globals. \<open>g_model_*\<close> are the fields of \<^verbatim>\<open>g_model\<close>; \<open>csm*\<close> are the arrays that
  the Cubism core hands out for \<^verbatim>\<open>g_model.model\<close>. \<^verbatim>\<open>g_externalOverrides\<close> is a
  \<^verbatim>\<open>std::map<int, std::pair<float,float>>\<close> that the frame iterates, so it is kept as
  the list of its entries in ascending key order.
\<close>

record globals =
  g_model_loaded :: bool
  g_model_modelDir :: string
  g_model_parameterMap :: "string \<rightharpoonup> int"
  g_model_textureIds :: "nat list"
  csmParameterCount :: int
  csmParameterValues :: "int \<Rightarrow> real"
  csmParameterDefaultValues :: "int \<Rightarrow> real"
  csmParameterMinimumValues :: "int \<Rightarrow> real"
  csmParameterMaximumValues :: "int \<Rightarrow> real"
  csmPartOpacities :: "int \<Rightarrow> real"
  g_idleMotion :: MotionData
  g_hasIdleMotion :: bool
  g_motionTime :: real
  g_lastTime :: real
  g_activeMotion :: MotionData
  g_hasActiveMotion :: bool
  g_activeMotionTime :: real
  g_activeMotionPriority :: int
  g_expressions :: "string \<rightharpoonup> ExpressionData"
  g_currentExpressionId :: string
  g_expressionFadeWeight :: real
  g_expressionFadingIn :: bool
  g_motionGroups :: "string \<rightharpoonup> MotionEntry list"
  g_externalOverrides :: "(int \<times> real \<times> real) list"
  g_poseGroups :: "PosePartInfo list list"
  g_hasPose :: bool
  g_physics :: PhysicsRig

definition g_expressionFadeSpeed :: real where
  "g_expressionFadeSpeed = 3"

definition POSE_FADE_SPEED :: real where
  "POSE_FADE_SPEED = 5"

definition default_MotionData :: MotionData where
  "default_MotionData =
     \<lparr>duration = 4, loop = True, fadeInTime = 1/2, fadeOutTime = 1/2, curves = []\<rparr>"

definition default_PhysicsRig :: PhysicsRig where
  "default_PhysicsRig =
     \<lparr>settings = [], gravity = \<lparr>vx = 0, vy = -1\<rparr>, wind = \<lparr>vx = 0, vy = 0\<rparr>,
      fps = 60, phys_loaded = False\<rparr>"

text \<open>The values the static initialisers give the globals, before any model is loaded.\<close>

definition initial_globals :: globals where
  "initial_globals =
     \<lparr>g_model_loaded = False, g_model_modelDir = [], g_model_parameterMap = Map.empty,
      g_model_textureIds = [],
      csmParameterCount = 0, csmParameterValues = (\<lambda>_. 0),
      csmParameterDefaultValues = (\<lambda>_. 0), csmParameterMinimumValues = (\<lambda>_. 0),
      csmParameterMaximumValues = (\<lambda>_. 0), csmPartOpacities = (\<lambda>_. 0),
      g_idleMotion = default_MotionData, g_hasIdleMotion = False, g_motionTime = 0,
      g_lastTime = 0,
      g_activeMotion = default_MotionData, g_hasActiveMotion = False,
      g_activeMotionTime = 0, g_activeMotionPriority = 0,
      g_expressions = Map.empty, g_currentExpressionId = [], g_expressionFadeWeight = 0,
      g_expressionFadingIn = False,
      g_motionGroups = Map.empty, g_externalOverrides = [],
      g_poseGroups = [], g_hasPose = False, g_physics = default_PhysicsRig\<rparr>"

text \<open>\<^verbatim>\<open>std::clamp(v, lo, hi)\<close>.\<close>

definition clampf :: "real \<Rightarrow> real \<Rightarrow> real \<Rightarrow> real" where
  "clampf v lo hi = (if v < lo then lo else if hi < v then hi else v)"

section \<open>Expression layer\<close>

text \<open>\<^verbatim>\<open>L2DBridge_SetExpression\<close>.\<close>

definition L2DBridge_SetExpression :: "string option \<Rightarrow> globals \<Rightarrow> globals" where
  "L2DBridge_SetExpression expressionId g =
     (case expressionId of
        None \<Rightarrow> g
      | Some exprId \<Rightarrow>
          if exprId = [] then
            (if g_currentExpressionId g \<noteq> [] then g\<lparr>g_expressionFadingIn := False\<rparr> else g)
          else if g_expressions g exprId = None then g
          else
            (let g1 = (if exprId \<noteq> g_currentExpressionId g
                       then g\<lparr>g_currentExpressionId := exprId, g_expressionFadeWeight := 0\<rparr>
                       else g)
             in g1\<lparr>g_expressionFadingIn := True\<rparr>))"

text \<open>
  The expression block of \<^verbatim>\<open>renderModel\<close>: first the fade, then the blend of every
  listed parameter into the parameter values. \<open>expression_fade\<close> is the
  \<^verbatim>\<open>if (g_expressionFadingIn) ... else ...\<close> statement, \<open>expression_blend\<close> the body of
  the loop over \<^verbatim>\<open>eit->second.params\<close> with weight \<open>w\<close>.
\<close>

definition expression_fade :: "real \<Rightarrow> globals \<Rightarrow> globals" where
  "expression_fade dt g =
     (if g_expressionFadingIn g then
        (let w = g_expressionFadeWeight g + dt * g_expressionFadeSpeed
         in g\<lparr>g_expressionFadeWeight := (if w \<ge> 1 then 1 else w)\<rparr>)
      else
        (let w = g_expressionFadeWeight g - dt * g_expressionFadeSpeed
         in if w \<le> 0 then g\<lparr>g_expressionFadeWeight := 0, g_currentExpressionId := []\<rparr>
            else g\<lparr>g_expressionFadeWeight := w\<rparr>))"

definition expression_blend :: "real \<Rightarrow> ExprParam \<Rightarrow> globals \<Rightarrow> globals" where
  "expression_blend w ep g =
     (case g_model_parameterMap g (ep_paramId ep) of
        None \<Rightarrow> g
      | Some pidx \<Rightarrow>
          (let v = csmParameterValues g pidx;
               v1 = (case ep_blend ep of
                       Add \<Rightarrow> v + ep_value ep * w
                     | Multiply \<Rightarrow> v * (1 + (ep_value ep - 1) * w)
                     | Overwrite \<Rightarrow> v * (1 - w) + ep_value ep * w)
           in g\<lparr>csmParameterValues := (csmParameterValues g)
                  (pidx := clampf v1 (csmParameterMinimumValues g pidx)
                                     (csmParameterMaximumValues g pidx))\<rparr>))"

definition renderModel_expression :: "real \<Rightarrow> globals \<Rightarrow> globals" where
  "renderModel_expression dt g =
     (if g_currentExpressionId g \<noteq> [] then
        (case g_expressions g (g_currentExpressionId g) of
           None \<Rightarrow> g
         | Some e \<Rightarrow>
             (let g1 = expression_fade dt g;
                  w = g_expressionFadeWeight g1
              in if w > 1/1000 then fold (expression_blend w) (expr_params e) g1 else g1))
      else g)"

section \<open>Parameter access\<close>

text \<open>
  \<^verbatim>\<open>L2DBridge_GetParameterValue\<close> and \<^verbatim>\<open>L2DBridge_GetParameterRange\<close>. Both return the
  result together with the globals they leave behind.
\<close>

definition L2DBridge_GetParameterValue :: "string option \<Rightarrow> globals \<Rightarrow> real \<times> globals" where
  "L2DBridge_GetParameterValue pid g =
     (case pid of
        None \<Rightarrow> (0, g)
      | Some name \<Rightarrow>
          if \<not> g_model_loaded g then (0, g)
          else (case g_model_parameterMap g name of
                  Some pidx \<Rightarrow> (csmParameterValues g pidx, g)
                | None \<Rightarrow> (0, g)))"

definition L2DBridge_GetParameterRange :: "string option \<Rightarrow> globals \<Rightarrow> real \<times> globals" where
  "L2DBridge_GetParameterRange pid g =
     (case pid of
        None \<Rightarrow> (1, g)
      | Some name \<Rightarrow>
          if \<not> g_model_loaded g then (1, g)
          else (case g_model_parameterMap g name of
                  Some pidx \<Rightarrow>
                    (csmParameterMaximumValues g pidx - csmParameterMinimumValues g pidx, g)
                | None \<Rightarrow> (1, g)))"

section \<open>External override channel\<close>

text \<open>
  \<^verbatim>\<open>g_externalOverrides.erase(k)\<close> and \<^verbatim>\<open>g_externalOverrides[k] = v\<close> on the list of
  entries in ascending key order.
\<close>

definition map_erase :: "int \<Rightarrow> (int \<times> 'v) list \<Rightarrow> (int \<times> 'v) list" where
  "map_erase k es = filter (\<lambda>e. fst e \<noteq> k) es"

fun map_store :: "int \<Rightarrow> 'v \<Rightarrow> (int \<times> 'v) list \<Rightarrow> (int \<times> 'v) list" where
  "map_store k v [] = [(k, v)]"
| "map_store k v ((k', v') # es) =
     (if k < k' then (k, v) # (k', v') # es
      else if k = k' then (k, v) # es
      else (k', v') # map_store k v es)"

text \<open>\<^verbatim>\<open>L2DBridge_SetParameterValue\<close>.\<close>

definition L2DBridge_SetParameterValue ::
  "string option \<Rightarrow> real \<Rightarrow> real \<Rightarrow> globals \<Rightarrow> globals" where
  "L2DBridge_SetParameterValue pid val weight g =
     (case pid of
        None \<Rightarrow> g
      | Some name \<Rightarrow>
          if \<not> g_model_loaded g then g
          else (case g_model_parameterMap g name of
                  None \<Rightarrow> g
                | Some pidx \<Rightarrow>
                    if weight < 1/1000
                    then g\<lparr>g_externalOverrides := map_erase pidx (g_externalOverrides g)\<rparr>
                    else g\<lparr>g_externalOverrides :=
                             map_store pidx (val, weight) (g_externalOverrides g)\<rparr>))"

text \<open>
  The loop \<^verbatim>\<open>for (const auto& ov : g_externalOverrides)\<close> of \<^verbatim>\<open>renderModel\<close>;
  \<open>apply_override\<close> is its body.
\<close>

definition apply_override :: "int \<Rightarrow> int \<times> real \<times> real \<Rightarrow> (int \<Rightarrow> real) \<Rightarrow> (int \<Rightarrow> real)" where
  "apply_override paramCount ov pv =
     (let pidx = fst ov; val = fst (snd ov); weight = snd (snd ov)
      in if pidx \<ge> 0 \<and> pidx < paramCount then
           (if weight \<ge> 1 then pv(pidx := val)
            else pv(pidx := pv pidx * (1 - weight) + val * weight))
         else pv)"

definition renderModel_overrides :: "globals \<Rightarrow> globals" where
  "renderModel_overrides g =
     g\<lparr>csmParameterValues :=
         fold (apply_override (csmParameterCount g)) (g_externalOverrides g)
              (csmParameterValues g)\<rparr>"

section \<open>Motion layer\<close>

text \<open>
  \<^verbatim>\<open>evaluateMotionCurve\<close>, with the rounding \<open>rnd\<close> of the float operations as a
  parameter. A division is partial: \<open>fdiv\<close> has no result for a zero divisor, and
  \<^verbatim>\<open>evaluateMotionCurve\<close> returns \<^term>\<open>None\<close> where the code would divide by zero.
  \<open>segment_fraction\<close> is the expression for \<^verbatim>\<open>frac\<close>, \<open>curve_loop\<close> the \<^verbatim>\<open>for\<close> loop
  from keyframe \<open>i\<close> on, with \<open>prev\<close> the keyframe \<open>i - 1\<close> and \<open>back\<close> the value
  returned when the loop runs out.
\<close>

definition fdiv :: "(real \<Rightarrow> real) \<Rightarrow> real \<Rightarrow> real \<Rightarrow> real option" where
  "fdiv rnd a b = (if b = 0 then None else Some (rnd (a / b)))"

definition segment_fraction :: "(real \<Rightarrow> real) \<Rightarrow> real \<Rightarrow> real \<Rightarrow> real \<Rightarrow> real option" where
  "segment_fraction rnd t t0 t1 =
     (if t1 > t0 then fdiv rnd (rnd (t - t0)) (rnd (t1 - t0)) else Some 0)"

fun curve_loop ::
  "(real \<Rightarrow> real) \<Rightarrow> real \<Rightarrow> real \<Rightarrow> MotionKeyframe \<Rightarrow> MotionKeyframe list \<Rightarrow> real option" where
  "curve_loop rnd t back prev [] = Some back"
| "curve_loop rnd t back prev (k # ks) =
     (if t \<le> kf_time k then
        (let t0 = kf_time prev; t1 = kf_time k;
             v0 = kf_value prev; v1 = kf_value k
         in case segment_fraction rnd t t0 t1 of
              None \<Rightarrow> None
            | Some fr \<Rightarrow> Some (rnd (v0 + rnd (rnd (v1 - v0) * fr))))
      else curve_loop rnd t back k ks)"

definition evaluateMotionCurve :: "(real \<Rightarrow> real) \<Rightarrow> MotionCurve \<Rightarrow> real \<Rightarrow> real option" where
  "evaluateMotionCurve rnd c t =
     (case keyframes c of
        [] \<Rightarrow> Some 0
      | k0 # ks \<Rightarrow>
          if t \<le> kf_time k0 then Some (kf_value k0)
          else if t \<ge> kf_time (last (k0 # ks)) then Some (kf_value (last (k0 # ks)))
          else curve_loop rnd t (kf_value (last (k0 # ks))) k0 ks)"

text \<open>
  \<^verbatim>\<open>L2DBridge_StartMotion\<close>. The file system (\<open>readFileString\<close>, from a path to the
  content, empty when the file cannot be opened) and the scanner of the motion
  description (\<open>parseMotion3Json\<close>) are parameters.
\<close>

definition L2DBridge_StartMotion ::
  "(string \<Rightarrow> string) \<Rightarrow> (string \<Rightarrow> MotionData) \<Rightarrow>
   string option \<Rightarrow> int \<Rightarrow> int \<Rightarrow> globals \<Rightarrow> globals" where
  "L2DBridge_StartMotion readFileString parseMotion3Json grp index priority g =
     (case grp of
        None \<Rightarrow> g
      | Some groupStr \<Rightarrow>
          if \<not> g_model_loaded g then g
          else if g_hasActiveMotion g \<and> priority < g_activeMotionPriority g then g
          else (case g_motionGroups g groupStr of
                  None \<Rightarrow> g
                | Some entries \<Rightarrow>
                    if index < 0 \<or> index \<ge> int (length entries) then g
                    else
                      (let motionFile = g_model_modelDir g @ me_file (entries ! nat index);
                           mj = readFileString motionFile
                       in if mj = [] then g
                          else
                            (let g1 = g\<lparr>g_activeMotion := parseMotion3Json mj\<rparr>
                             in if curves (g_activeMotion g1) = [] then g1
                                else g1\<lparr>g_hasActiveMotion := True,
                                        g_activeMotionTime := 0,
                                        g_activeMotionPriority := priority\<rparr>))))"

section \<open>Invariant and example states of the expression layer\<close>

text \<open>
  The invariant of the expression layer: the fade weight is in \<open>[0, 1]\<close> and the current
  identity is empty or names a loaded expression. It holds initially and every operation
  of the layer keeps it.
\<close>

definition expression_state_ok :: "globals \<Rightarrow> bool" where
  "expression_state_ok g \<longleftrightarrow>
     0 \<le> g_expressionFadeWeight g \<and> g_expressionFadeWeight g \<le> 1 \<and>
     (g_currentExpressionId g = [] \<or> g_expressions g (g_currentExpressionId g) \<noteq> None)"

text \<open>
  The expression \<open>smile\<close> fading in at weight 2/5, and the same expression fading out at
  weight 1/10.
\<close>

definition ex_smiling :: globals where
  "ex_smiling = initial_globals
     \<lparr>g_expressions := [''smile'' \<mapsto> \<lparr>expr_name = ''smile'', expr_params = []\<rparr>],
      g_currentExpressionId := ''smile'',
      g_expressionFadeWeight := 2/5,
      g_expressionFadingIn := True\<rparr>"

definition ex_fading_out :: globals where
  "ex_fading_out = ex_smiling\<lparr>g_expressionFadeWeight := 1/10, g_expressionFadingIn := False\<rparr>"

section \<open>Example states of the motion layer and the parameter store\<close>

text \<open>
  A loaded model with the motion group \<open>TapBody\<close> of one file, playing an active motion
  of priority 2 at playhead 3/2; a file system that has this one file; a scanner that
  returns a motion with one curve.
\<close>

definition ex_motion :: MotionData where
  "ex_motion = default_MotionData
     \<lparr>curves := [\<lparr>paramId = ''ParamAngleX'',
                   keyframes = [\<lparr>kf_time = 0, kf_value = 0\<rparr>, \<lparr>kf_time = 1, kf_value = 30\<rparr>]\<rparr>]\<rparr>"

definition ex_playing :: globals where
  "ex_playing = initial_globals
     \<lparr>g_model_loaded := True,
      g_model_modelDir := ''m/'',
      g_motionGroups := [''TapBody'' \<mapsto> [\<lparr>me_file = ''tap.motion3.json''\<rparr>]],
      g_activeMotion := ex_motion,
      g_hasActiveMotion := True,
      g_activeMotionTime := 3/2,
      g_activeMotionPriority := 2\<rparr>"

definition ex_files :: "string \<Rightarrow> string" where
  "ex_files path = (if path = ''m/tap.motion3.json'' then ''{}'' else [])"

definition ex_parse :: "string \<Rightarrow> MotionData" where
  "ex_parse text = ex_motion\<lparr>duration := 2\<rparr>"

text \<open>A loaded model with two parameters.\<close>

definition ex_loaded :: globals where
  "ex_loaded = initial_globals
     \<lparr>g_model_loaded := True,
      g_model_parameterMap := [''ParamAngleX'' \<mapsto> 0, ''ParamMouthOpenY'' \<mapsto> 1],
      csmParameterCount := 2,
      csmParameterValues := (\<lambda>_. 0)(0 := 12, 1 := 1/2),
      csmParameterMinimumValues := (\<lambda>_. 0)(0 := -30),
      csmParameterMaximumValues := (\<lambda>_. 0)(0 := 30, 1 := 1)\<rparr>"

text \<open>
  The linear interpolation between the keyframes \<open>a\<close> and \<open>b\<close> at the time \<open>t\<close>, in float
  operations with the rounding \<open>rnd\<close>.
\<close>

definition segment_value ::
  "(real \<Rightarrow> real) \<Rightarrow> MotionKeyframe \<Rightarrow> MotionKeyframe \<Rightarrow> real \<Rightarrow> real" where
  "segment_value rnd a b t =
     rnd (kf_value a +
          rnd (rnd (kf_value b - kf_value a) *
               rnd (rnd (t - kf_time a) / rnd (kf_time b - kf_time a))))"

text \<open>
  The rounding does not take the difference of two neighbouring keyframe times, the
  later one being the greater, to zero. Exact arithmetic has this property for every
  curve.
\<close>

definition time_steps_nonzero :: "(real \<Rightarrow> real) \<Rightarrow> MotionCurve \<Rightarrow> bool" where
  "time_steps_nonzero rnd c \<longleftrightarrow>
     (\<forall>i. Suc i < length (keyframes c) \<and>
          kf_time (keyframes c ! i) < kf_time (keyframes c ! Suc i) \<longrightarrow>
          rnd (kf_time (keyframes c ! Suc i) - kf_time (keyframes c ! i)) \<noteq> 0)"

text \<open>
  A curve of three keyframes, a curve of two keyframes with the same time, and a curve
  that falls steeply from \<open>2 ^ 25\<close> to 1 in its first segment.
\<close>

definition ex_curve :: MotionCurve where
  "ex_curve = \<lparr>paramId = ''ParamAngleX'',
     keyframes = [\<lparr>kf_time = 0, kf_value = 0\<rparr>, \<lparr>kf_time = 1, kf_value = 30\<rparr>,
                  \<lparr>kf_time = 3, kf_value = -10\<rparr>]\<rparr>"

definition ex_curve_tied :: MotionCurve where
  "ex_curve_tied = \<lparr>paramId = ''ParamAngleX'',
     keyframes = [\<lparr>kf_time = 1, kf_value = 10\<rparr>, \<lparr>kf_time = 1, kf_value = 20\<rparr>]\<rparr>"

definition ex_curve_steep :: MotionCurve where
  "ex_curve_steep = \<lparr>paramId = ''ParamAngleX'',
     keyframes = [\<lparr>kf_time = 0, kf_value = 33554432\<rparr>, \<lparr>kf_time = 1, kf_value = 1\<rparr>,
                  \<lparr>kf_time = 2, kf_value = 0\<rparr>]\<rparr>"

section \<open>Masked compositing renderer: draw order\<close>

text \<open>
  The renderer. \<^verbatim>\<open>DSortInfo\<close> is the struct of the file; a \<open>Drawable\<close> gathers, for one
  drawable index, the entries of the arrays that the Cubism core hands out and that the
  draw loop reads before it draws.
\<close>

record DSortInfo =
  ds_index :: int
  ds_order :: int

record Drawable =
  renderOrder :: int
  isVisible :: bool
  dr_opacity :: real
  vertexCount :: int
  indexCount :: int
  textureIndex :: int

text \<open>The vector \<^verbatim>\<open>sorted\<close> before the call of \<^verbatim>\<open>std::sort\<close>, and the comparison passed to it.\<close>

definition sort_input :: "Drawable list \<Rightarrow> DSortInfo list" where
  "sort_input ds =
     map (\<lambda>i. \<lparr>ds_index = int i, ds_order = renderOrder (ds ! i)\<rparr>) [0..<length ds]"

definition by_render_order :: "DSortInfo \<Rightarrow> DSortInfo \<Rightarrow> bool" where
  "by_render_order a b \<longleftrightarrow> ds_order a < ds_order b"

text \<open>
  \<^verbatim>\<open>std::sort\<close> is library code. All that the C++ standard fixes about its result is
  that it is a permutation of the input in which no element is followed by one that
  compares less; the order of elements that compare equal is not fixed. The embedding is
  this contract: \<open>std_sort_result cmp xs ys\<close> says that \<open>ys\<close> is a result that
  \<^verbatim>\<open>std::sort\<close> may leave for the input \<open>xs\<close>.
\<close>

definition std_sort_result :: "('a \<Rightarrow> 'a \<Rightarrow> bool) \<Rightarrow> 'a list \<Rightarrow> 'a list \<Rightarrow> bool" where
  "std_sort_result cmp xs ys \<longleftrightarrow>
     mset ys = mset xs \<and> sorted_wrt (\<lambda>a b. \<not> cmp b a) ys"

text \<open>
  The draw loop skips a drawable on the three \<^verbatim>\<open>continue\<close> conditions; \<open>draw_sequence\<close>
  is the sequence of drawable indices that reach \<^verbatim>\<open>glDrawElements\<close>, in order.
\<close>

definition is_drawn :: "nat list \<Rightarrow> Drawable \<Rightarrow> bool" where
  "is_drawn textureIds d \<longleftrightarrow>
     isVisible d \<and>
     \<not> (dr_opacity d \<le> 1/1000 \<or> vertexCount d = 0 \<or> indexCount d = 0) \<and>
     \<not> (textureIndex d < 0 \<or> textureIndex d \<ge> int (length textureIds) \<or>
        textureIds ! nat (textureIndex d) = 0)"

definition draw_sequence :: "nat list \<Rightarrow> Drawable list \<Rightarrow> DSortInfo list \<Rightarrow> int list" where
  "draw_sequence textureIds ds srt =
     filter (\<lambda>i. is_drawn textureIds (ds ! nat i)) (map ds_index srt)"

text \<open>Four drawables with render orders 3, 1, 2, 1, all visible and textured.\<close>

definition ex_drawable :: "int \<Rightarrow> Drawable" where
  "ex_drawable k = \<lparr>renderOrder = k, isVisible = True, dr_opacity = 1, vertexCount = 4,
     indexCount = 6, textureIndex = 0\<rparr>"

definition ex_drawables :: "Drawable list" where
  "ex_drawables = map ex_drawable [3, 1, 2, 1]"

definition ex_claimed_order :: "DSortInfo list" where
  "ex_claimed_order =
     [\<lparr>ds_index = 1, ds_order = 1\<rparr>, \<lparr>ds_index = 3, ds_order = 1\<rparr>,
      \<lparr>ds_index = 0, ds_order = 3\<rparr>, \<lparr>ds_index = 2, ds_order = 2\<rparr>]"

definition ex_stable_order :: "DSortInfo list" where
  "ex_stable_order =
     [\<lparr>ds_index = 1, ds_order = 1\<rparr>, \<lparr>ds_index = 3, ds_order = 1\<rparr>,
      \<lparr>ds_index = 2, ds_order = 2\<rparr>, \<lparr>ds_index = 0, ds_order = 3\<rparr>]"

definition ex_unstable_order :: "DSortInfo list" where
  "ex_unstable_order =
     [\<lparr>ds_index = 3, ds_order = 1\<rparr>, \<lparr>ds_index = 1, ds_order = 1\<rparr>,
      \<lparr>ds_index = 2, ds_order = 2\<rparr>, \<lparr>ds_index = 0, ds_order = 3\<rparr>]"

section \<open>Physics layer: input normalisation\<close>

text \<open>
  \<^verbatim>\<open>normalizePhysInput\<close> on real numbers, as \<^verbatim>\<open>updatePhysics\<close> uses it.
\<close>

definition normalizePhysInput ::
  "real \<Rightarrow> real \<Rightarrow> real \<Rightarrow> real \<Rightarrow> real \<Rightarrow> real \<Rightarrow> real \<Rightarrow> real" where
  "normalizePhysInput val pMin pMax pDef nMin nDef nMax =
     (let diff = val - pDef
      in if diff > 1/10000 then
           (let pr = pMax - pDef; nr = nMax - nDef
            in if pr > 1/10000 then nDef + diff / pr * nr else nMax)
         else if diff < - (1/10000) then
           (let pr = pDef - pMin; nr = nDef - nMin
            in if pr > 1/10000 then nDef + diff / pr * nr else nMin)
         else nDef)"

text \<open>
  The same function on values of \<^verbatim>\<open>float\<close> with their range. A value is a real number of
  magnitude up to \<open>FLT_MAX\<close>, one of the two infinities, or NaN. An operation whose exact
  result has magnitude \<open>2^128 - 2^103\<close> or more overflows to an infinity, as rounding to
  nearest does in binary32; below that bound the result is kept exact (capped at
  \<open>FLT_MAX\<close>), so rounding inside the range is not part of the embedding. The operations
  on infinities and NaN follow IEEE 754. A division is partial: \<open>f32_div\<close> has no result
  for the divisor zero, and \<open>normalizePhysInput_f32\<close> returns \<^term>\<open>None\<close> where the code
  would divide by zero.
\<close>

datatype f32 = Fin real | PInf | NInf | NaN

definition FLT_MAX :: real where
  "FLT_MAX = 2^128 - 2^104"

definition f32_round :: "real \<Rightarrow> f32" where
  "f32_round x =
     (if x \<ge> 2^128 - 2^103 then PInf
      else if x \<le> - (2^128 - 2^103) then NInf
      else Fin (max (- FLT_MAX) (min FLT_MAX x)))"

fun f32_neg :: "f32 \<Rightarrow> f32" where
  "f32_neg (Fin x) = Fin (- x)"
| "f32_neg PInf = NInf"
| "f32_neg NInf = PInf"
| "f32_neg NaN = NaN"

fun f32_add :: "f32 \<Rightarrow> f32 \<Rightarrow> f32" where
  "f32_add NaN b = NaN"
| "f32_add a NaN = NaN"
| "f32_add (Fin x) (Fin y) = f32_round (x + y)"
| "f32_add PInf NInf = NaN"
| "f32_add NInf PInf = NaN"
| "f32_add PInf b = PInf"
| "f32_add a PInf = PInf"
| "f32_add NInf b = NInf"
| "f32_add a NInf = NInf"

definition f32_sub :: "f32 \<Rightarrow> f32 \<Rightarrow> f32" where
  "f32_sub a b = f32_add a (f32_neg b)"

fun f32_mul :: "f32 \<Rightarrow> f32 \<Rightarrow> f32" where
  "f32_mul NaN b = NaN"
| "f32_mul a NaN = NaN"
| "f32_mul (Fin x) (Fin y) = f32_round (x * y)"
| "f32_mul (Fin x) PInf = (if x = 0 then NaN else if x > 0 then PInf else NInf)"
| "f32_mul (Fin x) NInf = (if x = 0 then NaN else if x > 0 then NInf else PInf)"
| "f32_mul PInf (Fin y) = (if y = 0 then NaN else if y > 0 then PInf else NInf)"
| "f32_mul NInf (Fin y) = (if y = 0 then NaN else if y > 0 then NInf else PInf)"
| "f32_mul PInf PInf = PInf"
| "f32_mul PInf NInf = NInf"
| "f32_mul NInf PInf = NInf"
| "f32_mul NInf NInf = PInf"

fun f32_quot :: "f32 \<Rightarrow> f32 \<Rightarrow> f32" where
  "f32_quot NaN b = NaN"
| "f32_quot a NaN = NaN"
| "f32_quot (Fin x) (Fin y) = f32_round (x / y)"
| "f32_quot (Fin x) PInf = Fin 0"
| "f32_quot (Fin x) NInf = Fin 0"
| "f32_quot PInf (Fin y) = (if y > 0 then PInf else NInf)"
| "f32_quot NInf (Fin y) = (if y > 0 then NInf else PInf)"
| "f32_quot a b = NaN"

definition f32_div :: "f32 \<Rightarrow> f32 \<Rightarrow> f32 option" where
  "f32_div a b = (if b = Fin 0 then None else Some (f32_quot a b))"

fun f32_gt :: "f32 \<Rightarrow> f32 \<Rightarrow> bool" where
  "f32_gt NaN b = False"
| "f32_gt a NaN = False"
| "f32_gt (Fin x) (Fin y) = (x > y)"
| "f32_gt PInf PInf = False"
| "f32_gt PInf b = True"
| "f32_gt a PInf = False"
| "f32_gt NInf b = False"
| "f32_gt a NInf = True"

definition f32_lt :: "f32 \<Rightarrow> f32 \<Rightarrow> bool" where
  "f32_lt a b = f32_gt b a"

definition f32_scaled :: "f32 \<Rightarrow> f32 \<Rightarrow> f32 \<Rightarrow> f32 \<Rightarrow> f32 option" where
  "f32_scaled nDef diff pr nr =
     (case f32_div diff pr of
        None \<Rightarrow> None
      | Some q \<Rightarrow> Some (f32_add nDef (f32_mul q nr)))"

definition normalizePhysInput_f32 ::
  "f32 \<Rightarrow> f32 \<Rightarrow> f32 \<Rightarrow> f32 \<Rightarrow> f32 \<Rightarrow> f32 \<Rightarrow> f32 \<Rightarrow> f32 option" where
  "normalizePhysInput_f32 val pMin pMax pDef nMin nDef nMax =
     (let diff = f32_sub val pDef
      in if f32_gt diff (Fin (1/10000)) then
           (let pr = f32_sub pMax pDef; nr = f32_sub nMax nDef
            in if f32_gt pr (Fin (1/10000)) then f32_scaled nDef diff pr nr else Some nMax)
         else if f32_lt diff (Fin (- (1/10000))) then
           (let pr = f32_sub pDef pMin; nr = f32_sub nDef nMin
            in if f32_gt pr (Fin (1/10000)) then f32_scaled nDef diff pr nr else Some nMin)
         else Some nDef)"

section \<open>Pose layer\<close>

text \<open>
  \<^verbatim>\<open>updatePose\<close>, with the rounding \<open>rnd\<close> of the float operations as a parameter.
  \<open>pose_dominant\<close> is the first loop over a group, from member \<open>i\<close> on, with the pair of
  \<^verbatim>\<open>maxOpacity\<close> and \<^verbatim>\<open>dominantIdx\<close>; \<open>pose_fade\<close> is the second loop, on the store of
  part opacities; \<open>fade_value\<close> is the new opacity of one member: the product
  \<^verbatim>\<open>dt * POSE_FADE_SPEED\<close> and the sum or difference are rounded, the clamps are exact.
\<close>

fun pose_dominant ::
  "(int \<Rightarrow> real) \<Rightarrow> PosePartInfo list \<Rightarrow> nat \<Rightarrow> real \<times> nat \<Rightarrow> real \<times> nat" where
  "pose_dominant opa [] i acc = acc"
| "pose_dominant opa (p # ps) i (maxOpacity, dominantIdx) =
     (if partIndex p < 0 then pose_dominant opa ps (Suc i) (maxOpacity, dominantIdx)
      else if opa (partIndex p) > maxOpacity
           then pose_dominant opa ps (Suc i) (opa (partIndex p), i)
           else pose_dominant opa ps (Suc i) (maxOpacity, dominantIdx))"

definition fade_value :: "(real \<Rightarrow> real) \<Rightarrow> real \<Rightarrow> bool \<Rightarrow> real \<Rightarrow> real" where
  "fade_value rnd dt dominant opacity =
     (if dominant then
        (let x = rnd (opacity + rnd (dt * POSE_FADE_SPEED)) in if x > 1 then 1 else x)
      else
        (let x = rnd (opacity - rnd (dt * POSE_FADE_SPEED)) in if x < 0 then 0 else x))"

fun pose_fade ::
  "(real \<Rightarrow> real) \<Rightarrow> real \<Rightarrow> nat \<Rightarrow> PosePartInfo list \<Rightarrow> nat \<Rightarrow>
   (int \<Rightarrow> real) \<Rightarrow> (int \<Rightarrow> real)" where
  "pose_fade rnd dt dominantIdx [] i opa = opa"
| "pose_fade rnd dt dominantIdx (p # ps) i opa =
     (if partIndex p < 0 then pose_fade rnd dt dominantIdx ps (Suc i) opa
      else
        (let opa1 = opa(partIndex p := fade_value rnd dt (i = dominantIdx) (opa (partIndex p)));
             opa2 = fold (\<lambda>linkIdx s. s(linkIdx := s (partIndex p))) (linkIndices p) opa1
         in pose_fade rnd dt dominantIdx ps (Suc i) opa2))"

definition pose_group ::
  "(real \<Rightarrow> real) \<Rightarrow> real \<Rightarrow> PosePartInfo list \<Rightarrow> (int \<Rightarrow> real) \<Rightarrow> (int \<Rightarrow> real)" where
  "pose_group rnd dt grp opa =
     pose_fade rnd dt (snd (pose_dominant opa grp 0 (0, 0))) grp 0 opa"

text \<open>
  Abstract view of one group: the list of its members' opacities. Member \<open>d\<close> is
  dominant in it when it is the first member with the greatest opacity.
\<close>

definition is_dominant :: "real list \<Rightarrow> nat \<Rightarrow> bool" where
  "is_dominant vs d \<longleftrightarrow>
     d < length vs \<and> (\<forall>j < length vs. vs ! j \<le> vs ! d) \<and> (\<forall>j < d. vs ! j < vs ! d)"

definition member_opacities :: "(int \<Rightarrow> real) \<Rightarrow> PosePartInfo list \<Rightarrow> real list" where
  "member_opacities opa grp = map (\<lambda>p. opa (partIndex p)) grp"

text \<open>Loop invariant of the first loop, on the prefix \<open>pre\<close> already visited.\<close>

definition dom_inv :: "real list \<Rightarrow> real \<times> nat \<Rightarrow> bool" where
  "dom_inv pre acc \<longleftrightarrow>
     (pre = [] \<and> acc = (0, 0)) \<or> (pre \<noteq> [] \<and> is_dominant pre (snd acc) \<and> fst acc = pre ! snd acc)"

text \<open>
  Well-formed pose data: every group has a member, every member is resolved, no part index
  occurs twice among the members of all groups, and no linked index is the part index of a
  member.
\<close>

definition pose_wf :: "PosePartInfo list list \<Rightarrow> bool" where
  "pose_wf groups \<longleftrightarrow>
     (\<forall>grp \<in> set groups. grp \<noteq> [] \<and> (\<forall>p \<in> set grp. 0 \<le> partIndex p)) \<and>
     distinct (concat (map (map partIndex) groups)) \<and>
     (\<forall>ga \<in> set groups. \<forall>p \<in> set ga. \<forall>l \<in> set (linkIndices p).
        \<forall>gb \<in> set groups. l \<notin> partIndex ` set gb)"

text \<open>The loop over \<^verbatim>\<open>g_poseGroups\<close>, and \<^verbatim>\<open>updatePose\<close> itself.\<close>

definition updatePose_groups ::
  "(real \<Rightarrow> real) \<Rightarrow> real \<Rightarrow> PosePartInfo list list \<Rightarrow> (int \<Rightarrow> real) \<Rightarrow> (int \<Rightarrow> real)" where
  "updatePose_groups rnd dt groups opa = fold (pose_group rnd dt) groups opa"

definition updatePose :: "(real \<Rightarrow> real) \<Rightarrow> real \<Rightarrow> globals \<Rightarrow> globals" where
  "updatePose rnd dt g =
     (if \<not> g_hasPose g \<or> \<not> g_model_loaded g then g
      else g\<lparr>csmPartOpacities :=
               updatePose_groups rnd dt (g_poseGroups g) (csmPartOpacities g)\<rparr>)"

text \<open>
  The fade step is not lost to rounding: before the clamp, one frame raises every opacity
  in \<open>[0, 1]\<close> by at least \<open>\<delta>\<close> in the branch of the dominant member and lowers it by at
  least \<open>\<delta>\<close> in the other branch, for a \<open>\<delta> > 0\<close>. In exact arithmetic this holds with
  \<open>\<delta> = dt * POSE_FADE_SPEED\<close> for every \<open>dt > 0\<close>.
\<close>

definition fade_progress :: "(real \<Rightarrow> real) \<Rightarrow> real \<Rightarrow> real \<Rightarrow> bool" where
  "fade_progress rnd dt \<delta> \<longleftrightarrow>
     0 < \<delta> \<and>
     (\<forall>v. 0 \<le> v \<and> v \<le> 1 \<longrightarrow>
          v + \<delta> \<le> rnd (v + rnd (dt * POSE_FADE_SPEED)) \<and>
          rnd (v - rnd (dt * POSE_FADE_SPEED)) \<le> v - \<delta>)"

text \<open>
  What is known of the opacity \<open>w\<close> of a member whose opacity was \<open>v\<close>, after frames that
  have moved it by at least \<open>t\<close> in all.
\<close>

definition fade_bounds :: "real \<Rightarrow> bool \<Rightarrow> real \<Rightarrow> real \<Rightarrow> bool" where
  "fade_bounds t dominant v w \<longleftrightarrow>
     (if dominant then min 1 (v + t) \<le> w \<and> w \<le> 1 else 0 \<le> w \<and> w \<le> max 0 (v - t))"

text \<open>
  A pose description whose first group member names a part that the model does not
  have: \<^verbatim>\<open>initPosePartIndices\<close> leaves its \<^verbatim>\<open>partIndex\<close> at -1 and gives the second
  member, part 1, the opacity 0.
\<close>

definition ex_pose_unresolved :: globals where
  "ex_pose_unresolved = initial_globals
     \<lparr>g_model_loaded := True, g_hasPose := True,
      g_poseGroups := [[\<lparr>partIndex = -1, linkIndices = []\<rparr>,
                        \<lparr>partIndex = 1, linkIndices = []\<rparr>]],
      csmPartOpacities := (\<lambda>_. 0)\<rparr>"

text \<open>Two arm poses, parts 0 and 1, with part 2 linked to part 1; part 1 is the more opaque.\<close>

definition ex_pose_arms :: globals where
  "ex_pose_arms = initial_globals
     \<lparr>g_model_loaded := True, g_hasPose := True,
      g_poseGroups := [[\<lparr>partIndex = 0, linkIndices = []\<rparr>,
                        \<lparr>partIndex = 1, linkIndices = [2]\<rparr>]],
      csmPartOpacities := (\<lambda>_. 1)(0 := 2/5, 1 := 3/5)\<rparr>"

text \<open>
  Two poses without links at the opacities 1/4 and 1/2, and a frame time of \<open>2 ^ -30\<close>
  seconds.
\<close>

definition ex_pose_quarter :: globals where
  "ex_pose_quarter = initial_globals
     \<lparr>g_model_loaded := True, g_hasPose := True,
      g_poseGroups := [[\<lparr>partIndex = 0, linkIndices = []\<rparr>,
                        \<lparr>partIndex = 1, linkIndices = []\<rparr>]],
      csmPartOpacities := (\<lambda>_. 0)(0 := 1/4, 1 := 1/2)\<rparr>"

definition ex_tiny_dt :: real where
  "ex_tiny_dt = 1 / 2 ^ 30"

section \<open>Physics layer: simulation\<close>

text \<open>
  \<^verbatim>\<open>atan2f\<close> on real numbers, and \<^verbatim>\<open>directionToRadian\<close>; \<open>wrap_up\<close> and \<open>wrap_down\<close> are
  its two \<^verbatim>\<open>while\<close> loops.
\<close>

definition atan2f :: "real \<Rightarrow> real \<Rightarrow> real" where
  "atan2f y x =
     (if x > 0 then arctan (y / x)
      else if x < 0 then (if y \<ge> 0 then arctan (y / x) + pi else arctan (y / x) - pi)
      else if y > 0 then pi / 2
      else if y < 0 then - (pi / 2)
      else 0)"

function wrap_up :: "real \<Rightarrow> real" where
  "wrap_up r = (if r < - pi then wrap_up (r + 2 * pi) else r)"
  by pat_completeness auto
termination
proof (relation "measure (\<lambda>r. nat \<lceil>(- pi - r) / (2 * pi)\<rceil>)")
  show "wf (measure (\<lambda>r. nat \<lceil>(- pi - r) / (2 * pi)\<rceil>))" by simp
next
  fix r :: real
  assume "r < - pi"
  then have pos: "0 < (- pi - r) / (2 * pi)" by simp
  have "(- pi - (r + 2 * pi)) / (2 * pi) = (- pi - r) / (2 * pi) - 1"
    by (simp add: field_simps)
  then have "\<lceil>(- pi - (r + 2 * pi)) / (2 * pi)\<rceil> = \<lceil>(- pi - r) / (2 * pi)\<rceil> - 1"
    by simp
  moreover from pos have "0 < \<lceil>(- pi - r) / (2 * pi)\<rceil>" by simp
  ultimately show "(r + 2 * pi, r) \<in> measure (\<lambda>r. nat \<lceil>(- pi - r) / (2 * pi)\<rceil>)"
    by simp
qed

function wrap_down :: "real \<Rightarrow> real" where
  "wrap_down r = (if r > pi then wrap_down (r - 2 * pi) else r)"
  by pat_completeness auto
termination
proof (relation "measure (\<lambda>r. nat \<lceil>(r - pi) / (2 * pi)\<rceil>)")
  show "wf (measure (\<lambda>r. nat \<lceil>(r - pi) / (2 * pi)\<rceil>))" by simp
next
  fix r :: real
  assume "pi < r"
  then have pos: "0 < (r - pi) / (2 * pi)" by simp
  have "(r - 2 * pi - pi) / (2 * pi) = (r - pi) / (2 * pi) - 1"
    by (simp add: field_simps)
  then have "\<lceil>(r - 2 * pi - pi) / (2 * pi)\<rceil> = \<lceil>(r - pi) / (2 * pi)\<rceil> - 1"
    by simp
  moreover from pos have "0 < \<lceil>(r - pi) / (2 * pi)\<rceil>" by simp
  ultimately show "(r - 2 * pi, r) \<in> measure (\<lambda>r. nat \<lceil>(r - pi) / (2 * pi)\<rceil>)"
    by simp
qed

definition directionToRadian :: "PhysVec2 \<Rightarrow> PhysVec2 \<Rightarrow> real" where
  "directionToRadian a b =
     (let q1 = atan2f (vy a) (vx a);
          q2 = atan2f (vy b) (vx b)
      in wrap_down (wrap_up (q2 - q1)))"

definition AIR_RES :: real where
  "AIR_RES = 5"


definition particle_force :: "PhysVec2 \<Rightarrow> PhysVec2 \<Rightarrow> PhysParticle \<Rightarrow> PhysVec2" where
  "particle_force curGrav wnd p =
     \<lparr>vx = vx curGrav * acceleration p + vx wnd, vy = vy curGrav * acceleration p + vy wnd\<rparr>"

definition particle_integrated ::
  "PhysVec2 \<Rightarrow> PhysVec2 \<Rightarrow> real \<Rightarrow> PhysParticle \<Rightarrow> PhysParticle \<Rightarrow> PhysVec2" where
  "particle_integrated curGrav wnd dt prev p =
     (let frc = particle_force curGrav wnd p;
          dly = delay p * dt * 30;
          dirx = vx (position p) - vx (position prev);
          diry = vy (position p) - vy (position prev);
          rad = directionToRadian (lastGravity p) curGrav / AIR_RES;
          cr = cos rad; sr = sin rad;
          rx = cr * dirx - sr * diry;
          ry = sr * dirx + cr * diry
      in \<lparr>vx = vx (position prev) + rx + (vx (velocity p) * dly + vx frc * dly * dly),
          vy = vy (position prev) + ry + (vy (velocity p) * dly + vy frc * dly * dly)\<rparr>)"

definition particle_projected :: "PhysParticle \<Rightarrow> real \<Rightarrow> PhysVec2 \<Rightarrow> PhysVec2" where
  "particle_projected prev rds pos =
     (let dx = vx pos - vx (position prev);
          dy = vy pos - vy (position prev);
          dist = sqrt (dx * dx + dy * dy)
      in if dist > 1/10000
         then \<lparr>vx = vx (position prev) + (dx / dist) * rds,
               vy = vy (position prev) + (dy / dist) * rds\<rparr>
         else pos)"

definition particle_snapped :: "PhysVec2 \<Rightarrow> PhysVec2" where
  "particle_snapped pos = (if \<bar>vx pos\<bar> < 1/1000 then pos\<lparr>vx := 0\<rparr> else pos)"

definition particle_step ::
  "PhysVec2 \<Rightarrow> PhysVec2 \<Rightarrow> real \<Rightarrow> PhysParticle \<Rightarrow> PhysParticle \<Rightarrow> PhysParticle" where
  "particle_step curGrav wnd dt prev p =
     (let saved = position p;
          dly = delay p * dt * 30;
          pos = particle_snapped
                  (particle_projected prev (radius p) (particle_integrated curGrav wnd dt prev p));
          vel = (if dly > 1/10000
                 then \<lparr>vx = (vx pos - vx saved) / dly * mobility p,
                       vy = (vy pos - vy saved) / dly * mobility p\<rparr>
                 else velocity p)
      in p\<lparr>force := particle_force curGrav wnd p, position := pos, velocity := vel,
           lastGravity := curGrav\<rparr>)"

fun particles_loop ::
  "PhysVec2 \<Rightarrow> PhysVec2 \<Rightarrow> real \<Rightarrow> PhysParticle \<Rightarrow> PhysParticle list \<Rightarrow> PhysParticle list" where
  "particles_loop curGrav wnd dt prev [] = []"
| "particles_loop curGrav wnd dt prev (p # ps) =
     (let p' = particle_step curGrav wnd dt prev p
      in p' # particles_loop curGrav wnd dt p' ps)"

text \<open>
  The loop over the inputs of a sub-rig, on the pair of \<^verbatim>\<open>totalAngle\<close> and \<^verbatim>\<open>totalTx\<close>,
  and the loop over its outputs, on the parameter values.
\<close>

definition physics_input :: "globals \<Rightarrow> PhysNorm \<Rightarrow> PhysInput \<Rightarrow> real \<times> real \<Rightarrow> real \<times> real" where
  "physics_input g nrm inp acc =
     (if sourceIdx inp < 0 \<or> sourceIdx inp \<ge> csmParameterCount g then acc
      else
        (let i = sourceIdx inp;
             w = in_weight inp / 100;
             normalized =
               (if in_type inp = 1
                then normalizePhysInput (csmParameterValues g i) (csmParameterMinimumValues g i)
                       (csmParameterMaximumValues g i) (csmParameterDefaultValues g i)
                       (angMin nrm) (angDef nrm) (angMax nrm)
                else normalizePhysInput (csmParameterValues g i) (csmParameterMinimumValues g i)
                       (csmParameterMaximumValues g i) (csmParameterDefaultValues g i)
                       (posMin nrm) (posDef nrm) (posMax nrm));
             normalized1 = (if in_reflect inp then - normalized else normalized)
         in if in_type inp = 1 then (fst acc + normalized1 * w, snd acc)
            else (fst acc, snd acc + normalized1 * w)))"

definition physics_output :: "PhysParticle list \<Rightarrow> PhysOutput \<Rightarrow> globals \<Rightarrow> globals" where
  "physics_output ps out g =
     (if destIdx out < 0 \<or> destIdx out \<ge> csmParameterCount g then g
      else if vertexIndex out < 1 \<or> vertexIndex out \<ge> int (length ps) then g
      else
        (let vi = nat (vertexIndex out);
             parentDir =
               (if vi \<ge> 2
                then \<lparr>vx = vx (position (ps ! (vi - 1))) - vx (position (ps ! (vi - 2))),
                      vy = vy (position (ps ! (vi - 1))) - vy (position (ps ! (vi - 2)))\<rparr>
                else \<lparr>vx = 0, vy = 1\<rparr>);
             curDir = \<lparr>vx = vx (position (ps ! vi)) - vx (position (ps ! (vi - 1))),
                       vy = vy (position (ps ! vi)) - vy (position (ps ! (vi - 1)))\<rparr>;
             angle = directionToRadian parentDir curDir;
             angle1 = (if out_reflect out then - angle else angle);
             outputValue = angle1 * out_scale out;
             w = out_weight out / 100;
             blended = csmParameterValues g (destIdx out) * (1 - w) + outputValue * w
         in g\<lparr>csmParameterValues := (csmParameterValues g)
                (destIdx out := clampf blended (csmParameterMinimumValues g (destIdx out))
                                       (csmParameterMaximumValues g (destIdx out)))\<rparr>))"

text \<open>
  The body of the loop over \<^verbatim>\<open>g_physics.settings\<close> for one sub-rig: the new sub-rig and
  the globals with the parameter values that the outputs have written.
\<close>

definition physics_particles :: "PhysVec2 \<Rightarrow> real \<Rightarrow> real \<times> real \<Rightarrow> PhysParticle list \<Rightarrow> PhysParticle list" where
  "physics_particles wnd dt totals ps =
     (case ps of
        [] \<Rightarrow> []
      | p0 # rest \<Rightarrow>
          (let root = p0\<lparr>position := (position p0)\<lparr>vx := snd totals\<rparr>\<rparr>;
               totalRad = fst totals * pi / 180;
               curGrav = \<lparr>vx = sin totalRad, vy = cos totalRad\<rparr>
           in root # particles_loop curGrav wnd dt root rest))"

definition physics_subrig :: "real \<Rightarrow> PhysVec2 \<Rightarrow> PhysSubRig \<Rightarrow> globals \<Rightarrow> PhysSubRig \<times> globals" where
  "physics_subrig dt wnd sub g =
     (let totals = fold (physics_input g (sub_norm sub)) (inputs sub) (0, 0)
      in if particles sub = [] then (sub, g)
         else
           (let ps = physics_particles wnd dt totals (particles sub)
            in (sub\<lparr>particles := ps\<rparr>, fold (physics_output ps) (outputs sub) g)))"

fun physics_loop :: "real \<Rightarrow> PhysVec2 \<Rightarrow> PhysSubRig list \<Rightarrow> globals \<Rightarrow> PhysSubRig list \<times> globals" where
  "physics_loop dt wnd [] g = ([], g)"
| "physics_loop dt wnd (sub # subs) g =
     (let (sub1, g1) = physics_subrig dt wnd sub g;
          (subs1, g2) = physics_loop dt wnd subs g1
      in (sub1 # subs1, g2))"

text \<open>\<^verbatim>\<open>updatePhysics\<close>.\<close>

definition updatePhysics :: "real \<Rightarrow> globals \<Rightarrow> globals" where
  "updatePhysics dt g =
     (if \<not> phys_loaded (g_physics g) \<or> \<not> g_model_loaded g then g
      else
        (let (subs, g1) = physics_loop dt (wind (g_physics g)) (settings (g_physics g)) g
         in g1\<lparr>g_physics := (g_physics g)\<lparr>settings := subs\<rparr>\<rparr>))"







section \<open>The frame from the expression block to the model update\<close>

text \<open>
  The frame time of \<^verbatim>\<open>renderModel\<close>, from the clock reading \<open>now\<close>: the time since the
  last frame, 1/60 in the first frame, at most 1/10.
\<close>

definition frame_dt :: "real \<Rightarrow> globals \<Rightarrow> real" where
  "frame_dt now g =
     (let dt = (if g_lastTime g > 0 then now - g_lastTime g else 1/60)
      in if dt > 1/10 then 1/10 else dt)"

text \<open>
  The statements of \<^verbatim>\<open>renderModel\<close> from the expression block up to the call of
  \<^verbatim>\<open>csmUpdateModel\<close>, in their order: expression, physics, external overrides, pose. The
  result is the state that \<^verbatim>\<open>csmUpdateModel\<close>, the final model update of the Cubism
  core, reads. The rounding \<open>rnd\<close> is that of the pose layer.
\<close>

definition renderModel_layers :: "(real \<Rightarrow> real) \<Rightarrow> real \<Rightarrow> globals \<Rightarrow> globals" where
  "renderModel_layers rnd dt g =
     updatePose rnd dt
       (renderModel_overrides (updatePhysics dt (renderModel_expression dt g)))"

text \<open>A loaded model with a stored override of weight 1/2 for the mouth parameter.\<close>

definition ex_lipsync :: globals where
  "ex_lipsync = ex_loaded\<lparr>g_externalOverrides := [(1, (1, 1/2))]\<rparr>"

section \<open>Properties of the rounding\<close>

lemma round_even_error: "\<bar>of_int (round_even y) - y\<bar> \<le> 1/2"
proof -
  define f where "f = \<lfloor>y\<rfloor>"
  have f: "of_int f \<le> y" "y < of_int f + 1" unfolding f_def by linarith+
  have "round_even y =
          (if y - of_int f < 1/2 then f else if y - of_int f > 1/2 then f + 1
           else if even f then f else f + 1)"
    by (simp add: round_even_def Let_def f_def)
  with f show ?thesis by (auto simp: abs_if)
qed

lemma round_even_of_int: "round_even (of_int k) = k"
  by (simp add: round_even_def)

lemma binary32_zero: "binary32 0 = 0"
  by (simp add: binary32_def)

lemma binary32_unit:
  assumes "x \<noteq> 0"
  shows "binary32 x = of_int (round_even (x / 2 powr (of_int (binary32_exponent x) - 23)))
                        * 2 powr (of_int (binary32_exponent x) - 23)"
  using assms by (simp add: binary32_def Let_def)

lemma binary32_unit_error:
  assumes "x \<noteq> 0"
  shows "\<bar>binary32 x - x\<bar> \<le> 2 powr (of_int (binary32_exponent x) - 23) / 2"
proof -
  let ?u = "2 powr (of_int (binary32_exponent x) - 23) :: real"
  have u: "0 < ?u" by simp
  have "binary32 x - x = ?u * (of_int (round_even (x / ?u)) - x / ?u)"
    using u by (simp add: binary32_unit [OF assms] field_simps)
  then have "\<bar>binary32 x - x\<bar> = ?u * \<bar>of_int (round_even (x / ?u)) - x / ?u\<bar>"
    using u by (simp add: abs_mult)
  also have "\<dots> \<le> ?u * (1/2)"
    using u round_even_error [of "x / ?u"] by (intro mult_left_mono) simp_all
  finally show ?thesis by simp
qed

lemma binary32_exponent_small:
  assumes "x \<noteq> 0" and "\<bar>x\<bar> < 2"
  shows "binary32_exponent x \<le> 0"
proof -
  have "log 2 \<bar>x\<bar> < log 2 2" using assms by simp
  then have "log 2 \<bar>x\<bar> < 1" by simp
  then have "\<lfloor>log 2 \<bar>x\<bar>\<rfloor> \<le> 0" by linarith
  then show ?thesis by (simp add: binary32_exponent_def)
qed

lemma binary32_error:
  assumes "\<bar>x\<bar> < 2"
  shows "\<bar>binary32 x - x\<bar> \<le> 1 / 2 ^ 24"
proof (cases "x = 0")
  case True
  then show ?thesis by (simp add: binary32_zero)
next
  case False
  from binary32_exponent_small [OF False assms]
  have "(2::real) powr (of_int (binary32_exponent x) - 23) \<le> 2 powr (- 23)"
    by (intro powr_mono) simp_all
  also have "(2::real) powr (- 23) = 1 / 2 ^ 23"
    by (simp add: powr_minus_divide)
  finally have "2 powr (of_int (binary32_exponent x) - 23) / 2 \<le> (1 / 2 ^ 23) / (2::real)"
    by simp
  with binary32_unit_error [OF False] show ?thesis by simp
qed

lemma binary32_exponent_eq:
  assumes "x \<noteq> 0" and "2 powr of_int e \<le> \<bar>x\<bar>" and "\<bar>x\<bar> < 2 powr (of_int e + 1)"
    and "- 126 \<le> e"
  shows "binary32_exponent x = e"
proof -
  have "\<lfloor>log 2 \<bar>x\<bar>\<rfloor> = e"
    using assms(1,2,3) by (subst floor_log_eq_powr_iff) simp_all
  with assms(4) show ?thesis by (simp add: binary32_exponent_def)
qed

lemma binary32_normal:
  assumes "2 ^ n \<le> \<bar>x\<bar>" and "\<bar>x\<bar> < 2 ^ Suc n"
  shows "binary32 x = of_int (round_even (x * 2 ^ 23 / 2 ^ n)) * 2 ^ n / 2 ^ 23"
proof -
  have x: "x \<noteq> 0"
  proof
    assume "x = 0"
    with assms(1) have "(2::real) ^ n \<le> 0" by simp
    moreover have "0 < (2::real) ^ n" by simp
    ultimately show False by linarith
  qed
  have e: "binary32_exponent x = int n"
  proof (rule binary32_exponent_eq [OF x])
    show "2 powr of_int (int n) \<le> \<bar>x\<bar>" using assms(1) by (simp add: powr_realpow)
    have "(2::real) powr (of_int (int n) + 1) = 2 ^ Suc n"
      by (simp add: powr_add powr_realpow)
    with assms(2) show "\<bar>x\<bar> < 2 powr (of_int (int n) + 1)" by simp
    show "- 126 \<le> int n" by simp
  qed
  have u: "(2::real) powr (of_int (int n) - 23) = 2 ^ n / 2 ^ 23"
    by (simp add: powr_diff powr_realpow)
  show ?thesis
    unfolding binary32_unit [OF x] e u by simp
qed

lemma binary32_fraction:
  assumes "1 \<le> \<bar>x\<bar> * 2 ^ n" and "\<bar>x\<bar> * 2 ^ n < 2" and "n \<le> 126"
  shows "binary32 x = of_int (round_even (x * 2 ^ 23 * 2 ^ n)) / (2 ^ 23 * 2 ^ n)"
proof -
  have x: "x \<noteq> 0" using assms(1) by auto
  have p: "(2::real) powr (- real n) = 1 / 2 ^ n"
    by (simp add: powr_minus_divide powr_realpow)
  have e: "binary32_exponent x = - int n"
  proof (rule binary32_exponent_eq [OF x])
    show "2 powr of_int (- int n) \<le> \<bar>x\<bar>"
      using assms(1) by (simp add: p field_simps)
    have q: "(2::real) powr (of_int (- int n) + 1) = 2 / 2 ^ n"
      by (simp add: powr_diff powr_realpow)
    have lt: "\<bar>x\<bar> < 2 / 2 ^ n" using assms(2) by (simp add: field_simps)
    show "\<bar>x\<bar> < 2 powr (of_int (- int n) + 1)"
      unfolding q by (rule lt)
    show "- 126 \<le> - int n" using assms(3) by simp
  qed
  have u: "(2::real) powr (of_int (- int n) - 23) = 1 / (2 ^ 23 * 2 ^ n)"
    by (simp add: powr_diff p)
  show ?thesis
    unfolding binary32_unit [OF x] e u by (simp add: mult.assoc)
qed

lemma binary32_nonzero:
  assumes "2 powr (- 149) \<le> \<bar>x\<bar>"
  shows "binary32 x \<noteq> 0"
proof
  assume z: "binary32 x = 0"
  have x: "x \<noteq> 0" using assms by auto
  let ?e = "binary32_exponent x"
  let ?u = "2 powr (of_int ?e - 23) :: real"
  have u: "0 < ?u" by simp
  from z binary32_unit [OF x] u have "round_even (x / ?u) = 0" by simp
  with round_even_error [of "x / ?u"] have "\<bar>x / ?u\<bar> \<le> 1/2" by simp
  then have small: "\<bar>x\<bar> \<le> ?u / 2" using u by (simp add: field_simps)
  show False
  proof (cases "- 126 \<le> \<lfloor>log 2 \<bar>x\<bar>\<rfloor>")
    case True
    then have e: "?e = \<lfloor>log 2 \<bar>x\<bar>\<rfloor>" by (simp add: binary32_exponent_def)
    have "2 powr (of_int ?e) \<le> \<bar>x\<bar>"
      using floor_log_eq_powr_iff [of "\<bar>x\<bar>" 2 "\<lfloor>log 2 \<bar>x\<bar>\<rfloor>"] x e by simp
    moreover have "?u \<le> 2 powr (of_int ?e)" by (intro powr_mono) simp_all
    ultimately have "?u \<le> \<bar>x\<bar>" by linarith
    with small u show False by linarith
  next
    case False
    then have e: "?e = - 126" by (simp add: binary32_exponent_def)
    have "?u = 2 powr (- 149)" by (simp add: e)
    with assms small u show False by linarith
  qed
qed

lemma binary32_grid: "\<exists>k. binary32 x = of_int k * 2 powr (- 149)"
proof (cases "x = 0")
  case True
  then have "binary32 x = of_int 0 * 2 powr (- 149)" by (simp add: binary32_zero)
  then show ?thesis by blast
next
  case False
  let ?e = "binary32_exponent x"
  have e: "- 126 \<le> ?e" by (simp add: binary32_exponent_def)
  define m where "m = nat (?e + 126)"
  have "real_of_int ?e - 23 = - 149 + real m" using e by (simp add: m_def)
  then have "(2::real) powr (of_int ?e - 23) = 2 powr (- 149) * 2 powr (real m)"
    by (simp only: powr_add)
  also have "(2::real) powr (real m) = of_int (2 ^ m)"
    by (simp add: powr_realpow)
  finally have u: "(2::real) powr (of_int ?e - 23) = of_int (2 ^ m) * 2 powr (- 149)"
    by simp
  have "binary32 x = of_int (round_even (x / 2 powr (of_int ?e - 23)) * 2 ^ m) * 2 powr (- 149)"
    by (subst binary32_unit [OF False], subst (2) u) simp
  then show ?thesis by blast
qed

lemma binary32_difference:
  assumes "binary32 a = a" and "binary32 b = b" and "a < b"
  shows "binary32 (b - a) \<noteq> 0"
proof -
  let ?g = "2 powr (- 149) :: real"
  have g: "0 < ?g" by simp
  from binary32_grid [of a] assms(1) obtain ka where ka: "a = of_int ka * ?g" by auto
  from binary32_grid [of b] assms(2) obtain kb where kb: "b = of_int kb * ?g" by auto
  have d: "b - a = of_int (kb - ka) * ?g"
    by (subst ka, subst kb) (simp add: algebra_simps)
  with assms(3) have "0 < of_int (kb - ka) * ?g" by simp
  with g have "0 < real_of_int (kb - ka)" by (simp add: zero_less_mult_iff)
  then have "0 < kb - ka" by simp
  then have "1 \<le> kb - ka" by simp
  then have "1 \<le> real_of_int (kb - ka)" by (simp only: of_int_1_le_iff)
  with g have "1 * ?g \<le> of_int (kb - ka) * ?g" by (intro mult_right_mono) simp_all
  with d assms(3) have "?g \<le> \<bar>b - a\<bar>" by simp
  then show ?thesis by (rule binary32_nonzero)
qed

text \<open>Values of the rounding used in the examples.\<close>

lemma binary32_1: "binary32 1 = 1"
  using binary32_normal [of 0 1] by (simp add: round_even_def)

lemma binary32_2: "binary32 2 = 2"
  using binary32_normal [of 1 2] by (simp add: round_even_def)

lemma binary32_3: "binary32 3 = 3"
  using binary32_normal [of 1 3] by (simp add: round_even_def)

lemma binary32_half: "binary32 (1/2) = 1/2"
  using binary32_fraction [of "1/2" 1] by (simp add: round_even_def)

lemma binary32_10: "binary32 10 = 10"
  using binary32_normal [of 3 10] by (simp add: round_even_def)

lemma binary32_m20: "binary32 (- 20) = - 20"
  using binary32_normal [of 4 "- 20"] by (simp add: round_even_def)

lemma binary32_m40: "binary32 (- 40) = - 40"
  using binary32_normal [of 5 "- 40"] by (simp add: round_even_def)

lemma binary32_m33554431: "binary32 (- 33554431) = - 33554432"
  using binary32_normal [of 24 "- 33554431"] by (simp add: round_even_def)

lemma binary32_m33554432: "binary32 (- 33554432) = - 33554432"
  using binary32_normal [of 25 "- 33554432"] by (simp add: round_even_def)

lemma binary32_5_64: "binary32 (5/64) = 5/64"
  using binary32_fraction [of "5/64" 4] by (simp add: round_even_def)

lemma binary32_5_8: "binary32 (5/8) = 5/8"
  using binary32_fraction [of "5/8" 1] by (simp add: round_even_def)

lemma binary32_m5_8: "binary32 (- (5/8)) = - (5/8)"
  using binary32_fraction [of "- (5/8)" 1] by (simp add: round_even_def)

lemma binary32_tiny_step: "binary32 (5 / 2 ^ 30) = 5 / 2 ^ 30"
  using binary32_fraction [of "5 / 2 ^ 30" 28] by (simp add: round_even_def)

lemma binary32_half_absorbs: "binary32 (1/2 + 5 / 2 ^ 30) = 1/2"
  using binary32_fraction [of "1/2 + 5 / 2 ^ 30" 1] by (simp add: round_even_def)

lemma binary32_quarter_absorbs: "binary32 (1/4 - 5 / 2 ^ 30) = 1/4"
  using binary32_fraction [of "1/4 - 5 / 2 ^ 30" 3] by (simp add: round_even_def)

section \<open>Properties of the expression layer\<close>

lemma expression_blend_fade_fields:
  "g_expressionFadeWeight (expression_blend w ep g) = g_expressionFadeWeight g \<and>
   g_currentExpressionId (expression_blend w ep g) = g_currentExpressionId g \<and>
   g_expressionFadingIn (expression_blend w ep g) = g_expressionFadingIn g"
  by (simp add: expression_blend_def Let_def split: option.splits)

lemma fold_expression_blend_fade_fields:
  "g_expressionFadeWeight (fold (expression_blend w) eps g) = g_expressionFadeWeight g \<and>
   g_currentExpressionId (fold (expression_blend w) eps g) = g_currentExpressionId g \<and>
   g_expressionFadingIn (fold (expression_blend w) eps g) = g_expressionFadingIn g"
  by (induction eps arbitrary: g) (simp_all add: expression_blend_fade_fields)

lemma SetExpression_same_id_fixed:
  assumes "g_expressionFadingIn g"
  shows "L2DBridge_SetExpression (Some (g_currentExpressionId g)) g = g"
  using assms by (simp add: L2DBridge_SetExpression_def Let_def split: option.splits)

lemma SetExpression_same_id_funpow:
  assumes "g_expressionFadingIn g"
  shows "(L2DBridge_SetExpression (Some (g_currentExpressionId g)) ^^ n) g = g"
  using assms by (induction n) (simp_all add: SetExpression_same_id_fixed)

text \<open>
  Claim C7. A call of \<^verbatim>\<open>L2DBridge_SetExpression\<close> with the identity that is already current,
  while the expression is fading in, leaves the fade weight as it is; so does any number
  \<open>n\<close> of such calls in a row.
\<close>

theorem SetExpression_same_id_keeps_weight:
  assumes "g_expressionFadingIn g"
  shows "g_expressionFadeWeight
           ((L2DBridge_SetExpression (Some (g_currentExpressionId g)) ^^ n) g)
         = g_expressionFadeWeight g"
  using assms by (simp add: SetExpression_same_id_funpow)

theorem SetExpression_same_id_keeps_weight_witness:
  "g_expressionFadingIn ex_smiling \<and>
   g_expressionFadeWeight ((L2DBridge_SetExpression (Some ''smile'') ^^ 3) ex_smiling) = 2/5"
  using SetExpression_same_id_keeps_weight [of ex_smiling 3]
  by (simp add: ex_smiling_def)

lemma expression_fade_weight:
  "g_expressionFadeWeight (expression_fade dt g) =
     (if g_expressionFadingIn g
      then min 1 (g_expressionFadeWeight g + dt * g_expressionFadeSpeed)
      else max 0 (g_expressionFadeWeight g - dt * g_expressionFadeSpeed))"
  by (simp add: expression_fade_def Let_def min_def max_def)

lemma expression_fade_id:
  "g_currentExpressionId (expression_fade dt g) =
     (if \<not> g_expressionFadingIn g \<and> g_expressionFadeWeight g - dt * g_expressionFadeSpeed \<le> 0
      then [] else g_currentExpressionId g)"
  by (simp add: expression_fade_def Let_def)

lemma expression_fade_expressions:
  "g_expressions (expression_fade dt g) = g_expressions g"
  by (simp add: expression_fade_def Let_def)

lemma expression_blend_expressions:
  "g_expressions (expression_blend w ep g) = g_expressions g"
  by (simp add: expression_blend_def Let_def split: option.splits)

lemma fold_expression_blend_expressions:
  "g_expressions (fold (expression_blend w) eps g) = g_expressions g"
  by (induction eps arbitrary: g) (simp_all add: expression_blend_expressions)

lemma renderModel_expression_weight:
  assumes "g_currentExpressionId g \<noteq> []" "g_expressions g (g_currentExpressionId g) \<noteq> None"
  shows "g_expressionFadeWeight (renderModel_expression dt g) =
     (if g_expressionFadingIn g
      then min 1 (g_expressionFadeWeight g + dt * g_expressionFadeSpeed)
      else max 0 (g_expressionFadeWeight g - dt * g_expressionFadeSpeed))"
  using assms
  by (auto simp: renderModel_expression_def Let_def fold_expression_blend_fade_fields
      expression_fade_weight)

lemma renderModel_expression_id:
  assumes "g_currentExpressionId g \<noteq> []" "g_expressions g (g_currentExpressionId g) \<noteq> None"
  shows "g_currentExpressionId (renderModel_expression dt g) =
     (if \<not> g_expressionFadingIn g \<and> g_expressionFadeWeight g - dt * g_expressionFadeSpeed \<le> 0
      then [] else g_currentExpressionId g)"
  using assms
  by (auto simp: renderModel_expression_def Let_def fold_expression_blend_fade_fields
      expression_fade_id)

lemma renderModel_expression_idle:
  assumes "g_currentExpressionId g = [] \<or> g_expressions g (g_currentExpressionId g) = None"
  shows "renderModel_expression dt g = g"
  using assms by (auto simp: renderModel_expression_def)

lemma renderModel_expression_expressions:
  "g_expressions (renderModel_expression dt g) = g_expressions g"
  by (auto simp: renderModel_expression_def Let_def fold_expression_blend_expressions
      expression_fade_expressions split: option.splits)

lemma frame_dt_range:
  assumes "g_lastTime g \<le> now"
  shows "0 \<le> frame_dt now g \<and> frame_dt now g \<le> 1/10"
  using assms by (simp add: frame_dt_def Let_def)

text \<open>
  Claim C6. From a state whose fade weight is in \<open>[0, 1]\<close> and whose current identity, if
  any, names a loaded expression, the expression block of a frame with \<open>dt \<ge> 0\<close> (the
  frame time is never negative, \<open>frame_dt_range\<close>) leads to such a state again. While
  fading in the weight becomes \<open>min 1 (weight + dt * fadeSpeed)\<close>, while fading out
  \<open>max 0 (weight - dt * fadeSpeed)\<close>, and when the weight is 0 after a fade-out the current
  identity is empty.
\<close>

theorem expression_fade_weight_in_unit_interval:
  assumes "expression_state_ok g" and "0 \<le> dt"
  shows "expression_state_ok (renderModel_expression dt g) \<and>
         (g_currentExpressionId g \<noteq> [] \<and> g_expressionFadingIn g \<longrightarrow>
            g_expressionFadeWeight (renderModel_expression dt g)
              = min 1 (g_expressionFadeWeight g + dt * g_expressionFadeSpeed)) \<and>
         (g_currentExpressionId g \<noteq> [] \<and> \<not> g_expressionFadingIn g \<longrightarrow>
            g_expressionFadeWeight (renderModel_expression dt g)
              = max 0 (g_expressionFadeWeight g - dt * g_expressionFadeSpeed)) \<and>
         (\<not> g_expressionFadingIn g \<and> g_expressionFadeWeight (renderModel_expression dt g) = 0 \<longrightarrow>
            g_currentExpressionId (renderModel_expression dt g) = [])"
proof (cases "g_currentExpressionId g = []")
  case True
  then have "renderModel_expression dt g = g"
    by (simp add: renderModel_expression_idle)
  with True assms show ?thesis by simp
next
  case False
  with assms have found: "g_expressions g (g_currentExpressionId g) \<noteq> None"
    by (simp add: expression_state_ok_def)
  have sp: "0 \<le> dt * g_expressionFadeSpeed"
    using assms(2) by (simp add: g_expressionFadeSpeed_def)
  note w = renderModel_expression_weight [OF False found, of dt]
  note i = renderModel_expression_id [OF False found, of dt]
  have ok: "expression_state_ok (renderModel_expression dt g)"
    using assms(1) sp found unfolding expression_state_ok_def w i
      renderModel_expression_expressions
    by (auto simp: min_def max_def)
  have clr: "\<not> g_expressionFadingIn g \<and> g_expressionFadeWeight (renderModel_expression dt g) = 0 \<longrightarrow>
            g_currentExpressionId (renderModel_expression dt g) = []"
    unfolding w i by (auto simp: max_def)
  from ok clr w show ?thesis by simp
qed

lemma SetExpression_state_ok:
  assumes "expression_state_ok g"
  shows "expression_state_ok (L2DBridge_SetExpression eid g)"
  using assms
  by (auto simp: expression_state_ok_def L2DBridge_SetExpression_def Let_def split: option.splits)

lemma initial_expression_state_ok: "expression_state_ok initial_globals"
  by (simp add: expression_state_ok_def initial_globals_def)

theorem expression_fade_weight_in_unit_interval_witness:
  "expression_state_ok ex_fading_out \<and> (0::real) \<le> 1/10 \<and>
   g_expressionFadeWeight (renderModel_expression (1/10) ex_fading_out) = 0 \<and>
   g_currentExpressionId (renderModel_expression (1/10) ex_fading_out) = [] \<and>
   expression_state_ok ex_smiling \<and>
   g_expressionFadeWeight (renderModel_expression (1/10) ex_smiling) = 7/10"
proof -
  have a: "expression_state_ok ex_fading_out"
    by (simp add: expression_state_ok_def ex_fading_out_def ex_smiling_def)
  have b: "expression_state_ok ex_smiling"
    by (simp add: expression_state_ok_def ex_smiling_def)
  have c: "(0::real) \<le> 1/10" by simp
  show ?thesis
    using a b expression_fade_weight_in_unit_interval [OF a c]
      expression_fade_weight_in_unit_interval [OF b c]
    by (simp add: ex_fading_out_def ex_smiling_def g_expressionFadeSpeed_def)
qed

section \<open>Properties of the motion layer\<close>

lemma curve_loop_segment:
  assumes "i < length ks"
    and "\<forall>j \<le> i. kf_time ((k0 # ks) ! j) < t"
    and "t \<le> kf_time (ks ! i)"
    and "rnd (kf_time (ks ! i) - kf_time ((k0 # ks) ! i)) \<noteq> 0"
  shows "curve_loop rnd t back k0 ks = Some (segment_value rnd ((k0 # ks) ! i) (ks ! i) t)"
  using assms
proof (induction ks arbitrary: i k0)
  case Nil
  then show ?case by simp
next
  case (Cons k ks)
  show ?case
  proof (cases i)
    case 0
    with Cons.prems have "kf_time k0 < t" "t \<le> kf_time k" "rnd (kf_time k - kf_time k0) \<noteq> 0"
      by auto
    with 0 show ?thesis
      by (simp add: segment_fraction_def fdiv_def segment_value_def Let_def)
  next
    case (Suc m)
    from Cons.prems(2) Suc have "kf_time ((k0 # k # ks) ! 1) < t"
      by (metis One_nat_def Suc_leI zero_less_Suc)
    then have nk: "\<not> t \<le> kf_time k" by simp
    have m: "m < length ks" using Cons.prems(1) Suc by simp
    have before: "\<forall>j \<le> m. kf_time ((k # ks) ! j) < t"
    proof (intro allI impI)
      fix j assume "j \<le> m"
      then have "Suc j \<le> i" using Suc by simp
      with Cons.prems(2) have "kf_time ((k0 # k # ks) ! Suc j) < t" by blast
      then show "kf_time ((k # ks) ! j) < t" by simp
    qed
    have at: "t \<le> kf_time (ks ! m)" using Cons.prems(3) Suc by simp
    have nz: "rnd (kf_time (ks ! m) - kf_time ((k # ks) ! m)) \<noteq> 0"
      using Cons.prems(4) Suc by simp
    from Cons.IH [OF m before at nz] nk Suc show ?thesis by simp
  qed
qed

lemma first_reached:
  assumes "\<exists>k \<in> set ks. t \<le> kf_time k"
  shows "\<exists>i < length ks. (\<forall>j < i. kf_time (ks ! j) < t) \<and> t \<le> kf_time (ks ! i)"
  using assms
proof (induction ks)
  case Nil
  then show ?case by simp
next
  case (Cons k ks)
  show ?case
  proof (cases "t \<le> kf_time k")
    case True
    then have "(\<forall>j < 0. kf_time ((k # ks) ! j) < t) \<and> t \<le> kf_time ((k # ks) ! 0)" by simp
    then show ?thesis by blast
  next
    case False
    with Cons.prems have "\<exists>k \<in> set ks. t \<le> kf_time k" by auto
    from Cons.IH [OF this] obtain i where i: "i < length ks"
      "\<forall>j < i. kf_time (ks ! j) < t" "t \<le> kf_time (ks ! i)" by blast
    have "\<forall>j < Suc i. kf_time ((k # ks) ! j) < t"
    proof (intro allI impI)
      fix j assume j: "j < Suc i"
      show "kf_time ((k # ks) ! j) < t"
      proof (cases j)
        case 0
        with False show ?thesis by simp
      next
        case (Suc j')
        with j i(2) show ?thesis by simp
      qed
    qed
    with i(1,3) have "Suc i < length (k # ks) \<and> (\<forall>j < Suc i. kf_time ((k # ks) ! j) < t)
        \<and> t \<le> kf_time ((k # ks) ! Suc i)" by simp
    then show ?thesis by blast
  qed
qed

lemma evaluate_before_first:
  assumes "keyframes c \<noteq> []" and "t \<le> kf_time (hd (keyframes c))"
  shows "evaluateMotionCurve rnd c t = Some (kf_value (hd (keyframes c)))"
  using assms by (cases "keyframes c") (simp_all add: evaluateMotionCurve_def)

lemma evaluate_after_last:
  assumes "keyframes c \<noteq> []" and "kf_time (hd (keyframes c)) < t"
    and "kf_time (last (keyframes c)) \<le> t"
  shows "evaluateMotionCurve rnd c t = Some (kf_value (last (keyframes c)))"
proof -
  from assms(1) obtain k0 ks where ks: "keyframes c = k0 # ks"
    by (cases "keyframes c") auto
  with assms(2,3) show ?thesis by (simp add: evaluateMotionCurve_def)
qed

lemma evaluate_pair_exists:
  assumes "keyframes c \<noteq> []" and "kf_time (hd (keyframes c)) < t"
    and "t < kf_time (last (keyframes c))"
  shows "\<exists>i. Suc i < length (keyframes c) \<and> (\<forall>j \<le> i. kf_time (keyframes c ! j) < t) \<and>
             t \<le> kf_time (keyframes c ! Suc i)"
proof -
  from assms(1) obtain k0 ks where ks: "keyframes c = k0 # ks"
    by (cases "keyframes c") auto
  from assms(2,3) ks have ne: "ks \<noteq> []" by auto
  then have "last (k0 # ks) \<in> set ks" by simp
  with assms(3) ks have "\<exists>k \<in> set ks. t \<le> kf_time k"
    by (metis less_eq_real_def)
  from first_reached [OF this] obtain i where i: "i < length ks"
    "\<forall>j < i. kf_time (ks ! j) < t" "t \<le> kf_time (ks ! i)" by blast
  have "\<forall>j \<le> i. kf_time ((k0 # ks) ! j) < t"
  proof (intro allI impI)
    fix j assume j: "j \<le> i"
    show "kf_time ((k0 # ks) ! j) < t"
    proof (cases j)
      case 0
      with assms(2) ks show ?thesis by simp
    next
      case (Suc j')
      with j i(2) show ?thesis by simp
    qed
  qed
  with i(1,3) ks have "Suc i < length (keyframes c) \<and> (\<forall>j \<le> i. kf_time (keyframes c ! j) < t) \<and>
             t \<le> kf_time (keyframes c ! Suc i)" by simp
  then show ?thesis by blast
qed

lemma evaluate_between:
  assumes "Suc i < length (keyframes c)"
    and "\<forall>j \<le> i. kf_time (keyframes c ! j) < t"
    and "t \<le> kf_time (keyframes c ! Suc i)"
    and "t < kf_time (last (keyframes c))"
    and "rnd (kf_time (keyframes c ! Suc i) - kf_time (keyframes c ! i)) \<noteq> 0"
  shows "evaluateMotionCurve rnd c t
         = Some (segment_value rnd (keyframes c ! i) (keyframes c ! Suc i) t)"
proof -
  from assms(1) obtain k0 ks where ks: "keyframes c = k0 # ks"
    by (cases "keyframes c") auto
  from assms(2) have "kf_time (keyframes c ! 0) < t" by blast
  with ks have first: "\<not> t \<le> kf_time k0" by simp
  from assms(4) ks have last: "\<not> t \<ge> kf_time (last (k0 # ks))" by simp
  have i: "i < length ks" using assms(1) ks by simp
  have "curve_loop rnd t (kf_value (last (k0 # ks))) k0 ks
        = Some (segment_value rnd ((k0 # ks) ! i) (ks ! i) t)"
    using assms(2,3,5) unfolding ks by (intro curve_loop_segment [OF i]) simp_all
  with first last ks show ?thesis by (simp add: evaluateMotionCurve_def)
qed

lemma evaluateMotionCurve_defined:
  assumes "time_steps_nonzero rnd c"
  shows "\<exists>y. evaluateMotionCurve rnd c t = Some y"
proof (cases "keyframes c = []")
  case True
  then show ?thesis by (simp add: evaluateMotionCurve_def)
next
  case False
  consider "t \<le> kf_time (hd (keyframes c))"
    | "kf_time (hd (keyframes c)) < t" "kf_time (last (keyframes c)) \<le> t"
    | "kf_time (hd (keyframes c)) < t" "t < kf_time (last (keyframes c))"
    by linarith
  then show ?thesis
  proof cases
    case 1
    with evaluate_before_first [OF False] show ?thesis by blast
  next
    case 2
    with evaluate_after_last [OF False] show ?thesis by blast
  next
    case 3
    from evaluate_pair_exists [OF False 3] obtain i where i: "Suc i < length (keyframes c)"
      "\<forall>j \<le> i. kf_time (keyframes c ! j) < t" "t \<le> kf_time (keyframes c ! Suc i)" by blast
    from i(2) have "kf_time (keyframes c ! i) < t" by blast
    with i(3) have "kf_time (keyframes c ! i) < kf_time (keyframes c ! Suc i)" by linarith
    with assms i(1) have "rnd (kf_time (keyframes c ! Suc i) - kf_time (keyframes c ! i)) \<noteq> 0"
      by (simp add: time_steps_nonzero_def)
    from evaluate_between [where rnd = rnd, OF i 3(2) this] show ?thesis by blast
  qed
qed

lemma time_steps_nonzero_exact: "time_steps_nonzero (\<lambda>x. x) c"
  by (simp add: time_steps_nonzero_def)

lemma sorted_times_before:
  assumes "sorted_wrt (\<lambda>a b. kf_time a \<le> kf_time b) ks"
    and "i < length ks" and "kf_time (ks ! i) < t" and "j \<le> i"
  shows "kf_time (ks ! j) < t"
proof (cases "j = i")
  case True
  with assms(3) show ?thesis by simp
next
  case False
  with assms(4) have "j < i" by simp
  from sorted_wrt_nth_less [OF assms(1) this assms(2)] assms(3) show ?thesis by simp
qed

lemma evaluate_at_keyframe_exact:
  assumes "Suc i < length (keyframes c)"
    and "sorted_wrt (\<lambda>a b. kf_time a < kf_time b) (keyframes c)"
    and "Suc i < length (keyframes c) - 1"
  shows "evaluateMotionCurve (\<lambda>x. x) c (kf_time (keyframes c ! Suc i))
         = Some (kf_value (keyframes c ! Suc i))"
proof -
  let ?ks = "keyframes c"
  let ?t = "kf_time (?ks ! Suc i)"
  have lt: "kf_time (?ks ! i) < ?t"
    using sorted_wrt_nth_less [OF assms(2), of i "Suc i"] assms(1) by simp
  have before: "\<forall>j \<le> i. kf_time (?ks ! j) < ?t"
  proof (intro allI impI)
    fix j assume "j \<le> i"
    then have "j < Suc i" by simp
    from sorted_wrt_nth_less [OF assms(2) this assms(1)] show "kf_time (?ks ! j) < ?t" .
  qed
  have ne: "?ks \<noteq> []" using assms(1) by auto
  have "?t < kf_time (?ks ! (length ?ks - 1))"
    using sorted_wrt_nth_less [OF assms(2) assms(3)] assms(1) by simp
  then have last: "?t < kf_time (last ?ks)" using ne by (simp add: last_conv_nth)
  have nz: "kf_time (?ks ! Suc i) - kf_time (?ks ! i) \<noteq> 0" using lt by simp
  have "evaluateMotionCurve (\<lambda>x. x) c ?t = Some (segment_value (\<lambda>x. x) (?ks ! i) (?ks ! Suc i) ?t)"
    using before last nz by (intro evaluate_between [OF assms(1)]) simp_all
  also have "segment_value (\<lambda>x. x) (?ks ! i) (?ks ! Suc i) ?t = kf_value (?ks ! Suc i)"
    using lt by (simp add: segment_value_def)
  finally show ?thesis .
qed

lemma time_steps_nonzero_binary32:
  assumes "\<forall>k \<in> set (keyframes c). binary32 (kf_time k) = kf_time k"
  shows "time_steps_nonzero binary32 c"
  unfolding time_steps_nonzero_def
proof (intro allI impI)
  fix i
  assume h: "Suc i < length (keyframes c) \<and>
             kf_time (keyframes c ! i) < kf_time (keyframes c ! Suc i)"
  then have "keyframes c ! i \<in> set (keyframes c)" "keyframes c ! Suc i \<in> set (keyframes c)"
    by simp_all
  with assms have "binary32 (kf_time (keyframes c ! i)) = kf_time (keyframes c ! i)"
    "binary32 (kf_time (keyframes c ! Suc i)) = kf_time (keyframes c ! Suc i)" by blast+
  with h show "binary32 (kf_time (keyframes c ! Suc i) - kf_time (keyframes c ! i)) \<noteq> 0"
    by (intro binary32_difference) simp_all
qed

text \<open>
  Claim C4 as stated fails, in two ways. For a curve of two keyframes with the same time
  1 and the values 10 and 20, the time 1 is at or after the time of the last keyframe and
  is the time of the second keyframe, but the result is 10, the value of the first
  keyframe, not 20: the test \<^verbatim>\<open>t <= front().time\<close> comes first, and no arithmetic is
  involved. For a curve with increasing times whose value falls from \<open>2 ^ 25\<close> at time
  0 to 1 at time 1, the result at time 1, the time of an interior keyframe, is
  \<open>v0 + (v1 - v0) * 1\<close> in float operations: the difference \<open>1 - 2 ^ 25\<close> rounds to
  \<open>- 2 ^ 25\<close> and the result is 0, not the value 1 of the keyframe.
\<close>

theorem evaluateMotionCurve_keyframe_counterexample:
  "2 \<le> length (keyframes ex_curve_tied) \<and>
   kf_time (last (keyframes ex_curve_tied)) \<le> 1 \<and>
   kf_time (keyframes ex_curve_tied ! 1) = 1 \<and>
   kf_value (last (keyframes ex_curve_tied)) = 20 \<and>
   kf_value (keyframes ex_curve_tied ! 1) = 20 \<and>
   evaluateMotionCurve (\<lambda>x. x) ex_curve_tied 1 = Some 10 \<and>
   evaluateMotionCurve binary32 ex_curve_tied 1 = Some 10 \<and>
   2 \<le> length (keyframes ex_curve_steep) \<and>
   kf_time (keyframes ex_curve_steep ! 1) = 1 \<and>
   kf_value (keyframes ex_curve_steep ! 1) = 1 \<and>
   evaluateMotionCurve binary32 ex_curve_steep 1 = Some 0"
proof -
  have "evaluateMotionCurve binary32 ex_curve_steep 1 = Some 0"
    by (simp add: ex_curve_steep_def evaluateMotionCurve_def segment_fraction_def fdiv_def
        binary32_1 binary32_m33554431 binary32_m33554432 binary32_zero)
  then show ?thesis
    by (simp add: ex_curve_tied_def evaluateMotionCurve_def) (simp add: ex_curve_steep_def)
qed

text \<open>
  Claim C4, amended. For every curve with at least 2 keyframes, every time \<open>t\<close> and every
  rounding of the float operations: up to the time of the first keyframe the result is
  the value of the first keyframe; after it, from the time of the last keyframe on, the
  result is the value of the last keyframe; otherwise there is a first pair of neighbouring
  keyframes \<open>i\<close>, \<open>i + 1\<close> with \<open>t\<close> up to the time of keyframe \<open>i + 1\<close> (all keyframes up
  to \<open>i\<close> have times below \<open>t\<close>), and the result is the linear interpolation between the
  two, computed in float operations. For this pair the time of keyframe \<open>i\<close> is strictly
  below the time of keyframe \<open>i + 1\<close>, so that the fraction is never taken between equal
  times; when the keyframes are in ascending order of time it is the pair that brackets
  \<open>t\<close>. The function divides by the rounded difference of the two times and therefore
  never by zero when the rounding takes no such difference to zero: never in exact
  arithmetic, and never in binary32 when the keyframe times are binary32 numbers.
\<close>

theorem evaluateMotionCurve_cases:
  assumes "2 \<le> length (keyframes c)"
  shows
  "(t \<le> kf_time (hd (keyframes c)) \<longrightarrow>
      evaluateMotionCurve rnd c t = Some (kf_value (hd (keyframes c)))) \<and>
   (kf_time (hd (keyframes c)) < t \<and> kf_time (last (keyframes c)) \<le> t \<longrightarrow>
      evaluateMotionCurve rnd c t = Some (kf_value (last (keyframes c)))) \<and>
   (kf_time (hd (keyframes c)) < t \<and> t < kf_time (last (keyframes c)) \<longrightarrow>
      (\<exists>i. Suc i < length (keyframes c) \<and> (\<forall>j \<le> i. kf_time (keyframes c ! j) < t) \<and>
           t \<le> kf_time (keyframes c ! Suc i))) \<and>
   (\<forall>i. Suc i < length (keyframes c) \<and> (\<forall>j \<le> i. kf_time (keyframes c ! j) < t) \<and>
        t \<le> kf_time (keyframes c ! Suc i) \<and> t < kf_time (last (keyframes c)) \<longrightarrow>
        kf_time (keyframes c ! i) < kf_time (keyframes c ! Suc i) \<and>
        (rnd (kf_time (keyframes c ! Suc i) - kf_time (keyframes c ! i)) \<noteq> 0 \<longrightarrow>
         evaluateMotionCurve rnd c t
           = Some (segment_value rnd (keyframes c ! i) (keyframes c ! Suc i) t))) \<and>
   (\<forall>i. sorted_wrt (\<lambda>a b. kf_time a \<le> kf_time b) (keyframes c) \<and>
        Suc i < length (keyframes c) \<and> kf_time (keyframes c ! i) < t \<longrightarrow>
        (\<forall>j \<le> i. kf_time (keyframes c ! j) < t)) \<and>
   (time_steps_nonzero rnd c \<longrightarrow> (\<exists>y. evaluateMotionCurve rnd c t = Some y)) \<and>
   (\<exists>y. evaluateMotionCurve (\<lambda>x. x) c t = Some y) \<and>
   ((\<forall>k \<in> set (keyframes c). binary32 (kf_time k) = kf_time k) \<longrightarrow>
      (\<exists>y. evaluateMotionCurve binary32 c t = Some y))"
proof -
  from assms have ne: "keyframes c \<noteq> []" by auto
  have a: "t \<le> kf_time (hd (keyframes c)) \<longrightarrow>
      evaluateMotionCurve rnd c t = Some (kf_value (hd (keyframes c)))"
    using evaluate_before_first [OF ne] by blast
  have b: "kf_time (hd (keyframes c)) < t \<and> kf_time (last (keyframes c)) \<le> t \<longrightarrow>
      evaluateMotionCurve rnd c t = Some (kf_value (last (keyframes c)))"
    using evaluate_after_last [OF ne] by blast
  have x: "kf_time (hd (keyframes c)) < t \<and> t < kf_time (last (keyframes c)) \<longrightarrow>
      (\<exists>i. Suc i < length (keyframes c) \<and> (\<forall>j \<le> i. kf_time (keyframes c ! j) < t) \<and>
           t \<le> kf_time (keyframes c ! Suc i))"
    using evaluate_pair_exists [OF ne] by blast
  have s: "\<forall>i. Suc i < length (keyframes c) \<and> (\<forall>j \<le> i. kf_time (keyframes c ! j) < t) \<and>
        t \<le> kf_time (keyframes c ! Suc i) \<and> t < kf_time (last (keyframes c)) \<longrightarrow>
        kf_time (keyframes c ! i) < kf_time (keyframes c ! Suc i) \<and>
        (rnd (kf_time (keyframes c ! Suc i) - kf_time (keyframes c ! i)) \<noteq> 0 \<longrightarrow>
         evaluateMotionCurve rnd c t
           = Some (segment_value rnd (keyframes c ! i) (keyframes c ! Suc i) t))"
  proof (intro allI impI conjI)
    fix i
    assume h: "Suc i < length (keyframes c) \<and> (\<forall>j \<le> i. kf_time (keyframes c ! j) < t) \<and>
        t \<le> kf_time (keyframes c ! Suc i) \<and> t < kf_time (last (keyframes c))"
    then have "kf_time (keyframes c ! i) < t" by blast
    with h show "kf_time (keyframes c ! i) < kf_time (keyframes c ! Suc i)" by linarith
  next
    fix i
    assume h: "Suc i < length (keyframes c) \<and> (\<forall>j \<le> i. kf_time (keyframes c ! j) < t) \<and>
        t \<le> kf_time (keyframes c ! Suc i) \<and> t < kf_time (last (keyframes c))"
      and nz: "rnd (kf_time (keyframes c ! Suc i) - kf_time (keyframes c ! i)) \<noteq> 0"
    from h have h1: "Suc i < length (keyframes c)"
      and h2: "\<forall>j \<le> i. kf_time (keyframes c ! j) < t"
      and h3: "t \<le> kf_time (keyframes c ! Suc i)" and h4: "t < kf_time (last (keyframes c))"
      by blast+
    from evaluate_between [where rnd = rnd, OF h1 h2 h3 h4 nz]
    show "evaluateMotionCurve rnd c t
           = Some (segment_value rnd (keyframes c ! i) (keyframes c ! Suc i) t)" .
  qed
  have o: "\<forall>i. sorted_wrt (\<lambda>a b. kf_time a \<le> kf_time b) (keyframes c) \<and>
        Suc i < length (keyframes c) \<and> kf_time (keyframes c ! i) < t \<longrightarrow>
        (\<forall>j \<le> i. kf_time (keyframes c ! j) < t)"
    using sorted_times_before by (metis Suc_lessD)
  have d: "time_steps_nonzero rnd c \<longrightarrow> (\<exists>y. evaluateMotionCurve rnd c t = Some y)"
    using evaluateMotionCurve_defined by blast
  have e: "\<exists>y. evaluateMotionCurve (\<lambda>x. x) c t = Some y"
    using time_steps_nonzero_exact by (rule evaluateMotionCurve_defined)
  have f: "(\<forall>k \<in> set (keyframes c). binary32 (kf_time k) = kf_time k) \<longrightarrow>
      (\<exists>y. evaluateMotionCurve binary32 c t = Some y)"
    using evaluateMotionCurve_defined [OF time_steps_nonzero_binary32] by blast
  from a b x s o d e f show ?thesis by (intro conjI)
qed

theorem evaluateMotionCurve_cases_witness:
  "2 \<le> length (keyframes ex_curve) \<and>
   time_steps_nonzero (\<lambda>x. x) ex_curve \<and>
   evaluateMotionCurve (\<lambda>x. x) ex_curve (-1) = Some 0 \<and>
   evaluateMotionCurve (\<lambda>x. x) ex_curve 5 = Some (-10) \<and>
   evaluateMotionCurve (\<lambda>x. x) ex_curve 2 = Some 10 \<and>
   time_steps_nonzero binary32 ex_curve \<and>
   evaluateMotionCurve binary32 ex_curve (-1) = Some 0 \<and>
   evaluateMotionCurve binary32 ex_curve 5 = Some (-10) \<and>
   evaluateMotionCurve binary32 ex_curve 2 = Some 10"
proof -
  have len: "2 \<le> length (keyframes ex_curve)" by (simp add: ex_curve_def)
  have before: "\<forall>j \<le> (1::nat). kf_time (keyframes ex_curve ! j) < 2"
  proof (intro allI impI)
    fix j :: nat assume "j \<le> 1"
    then consider "j = 0" | "j = 1" by linarith
    then show "kf_time (keyframes ex_curve ! j) < 2"
      by cases (simp_all add: ex_curve_def)
  qed
  have pair: "Suc 1 < length (keyframes ex_curve)" "2 \<le> kf_time (keyframes ex_curve ! Suc 1)"
    "2 < kf_time (last (keyframes ex_curve))"
    by (simp_all add: ex_curve_def)
  have between: "evaluateMotionCurve rnd ex_curve 2
           = Some (segment_value rnd (keyframes ex_curve ! 1) (keyframes ex_curve ! Suc 1) 2)"
    if nz: "rnd (kf_time (keyframes ex_curve ! Suc 1) - kf_time (keyframes ex_curve ! 1)) \<noteq> 0"
    for rnd
  proof -
    from evaluateMotionCurve_cases [OF len, of 2 rnd]
    have "Suc 1 < length (keyframes ex_curve) \<and>
        (\<forall>j \<le> 1. kf_time (keyframes ex_curve ! j) < 2) \<and>
        2 \<le> kf_time (keyframes ex_curve ! Suc 1) \<and> 2 < kf_time (last (keyframes ex_curve)) \<longrightarrow>
        kf_time (keyframes ex_curve ! 1) < kf_time (keyframes ex_curve ! Suc 1) \<and>
        (rnd (kf_time (keyframes ex_curve ! Suc 1) - kf_time (keyframes ex_curve ! 1)) \<noteq> 0 \<longrightarrow>
         evaluateMotionCurve rnd ex_curve 2
           = Some (segment_value rnd (keyframes ex_curve ! 1) (keyframes ex_curve ! Suc 1) 2))"
      by blast
    with before pair nz show ?thesis by blast
  qed
  have outer: "evaluateMotionCurve rnd ex_curve (-1) = Some 0 \<and>
               evaluateMotionCurve rnd ex_curve 5 = Some (-10)" for rnd
    using evaluateMotionCurve_cases [OF len, of "-1" rnd]
      evaluateMotionCurve_cases [OF len, of 5 rnd]
    by (simp add: ex_curve_def)
  have nz: "time_steps_nonzero (\<lambda>x. x) ex_curve" by (rule time_steps_nonzero_exact)
  have "kf_time (keyframes ex_curve ! Suc 1) - kf_time (keyframes ex_curve ! 1) \<noteq> 0"
    by (simp add: ex_curve_def)
  from between [of "\<lambda>x. x", OF this]
  have d: "evaluateMotionCurve (\<lambda>x. x) ex_curve 2 = Some 10"
    by (simp add: ex_curve_def segment_value_def)
  have nzb: "time_steps_nonzero binary32 ex_curve"
    by (rule time_steps_nonzero_binary32)
       (simp add: ex_curve_def binary32_zero binary32_1 binary32_3)
  have "binary32 (kf_time (keyframes ex_curve ! Suc 1) - kf_time (keyframes ex_curve ! 1)) \<noteq> 0"
    by (simp add: ex_curve_def binary32_2)
  from between [of binary32, OF this]
  have db: "evaluateMotionCurve binary32 ex_curve 2 = Some 10"
    by (simp add: ex_curve_def segment_value_def
        binary32_1 binary32_2 binary32_half binary32_m40 binary32_m20 binary32_10)
  from len nz outer [of "\<lambda>x. x"] d nzb outer [of binary32] db show ?thesis
    by (intro conjI) simp_all
qed

text \<open>
  Claim C3 as stated fails: with an active motion of priority 2 at playhead 3/2, a
  request of priority 3 for a motion group that does not exist changes nothing; the
  playhead is not reset and the priority stays 2.
\<close>

theorem StartMotion_lookup_miss_counterexample:
  "g_hasActiveMotion ex_playing \<and> g_activeMotionPriority ex_playing \<le> 3 \<and>
   L2DBridge_StartMotion ex_files ex_parse (Some ''Wave'') 0 3 ex_playing = ex_playing \<and>
   g_activeMotionTime (L2DBridge_StartMotion ex_files ex_parse (Some ''Wave'') 0 3 ex_playing) = 3/2 \<and>
   g_activeMotionPriority (L2DBridge_StartMotion ex_files ex_parse (Some ''Wave'') 0 3 ex_playing) = 2"
  by (simp add: L2DBridge_StartMotion_def ex_playing_def initial_globals_def)

text \<open>
  Claim C3, amended. A request of priority strictly below that of the playing active
  motion leaves all globals unchanged. A request that is not below it, on a loaded model,
  for a group and an index that exist, whose file has content and whose parsed motion has
  at least one curve, replaces the active motion, resets the playhead to 0 and stores the
  priority. A request whose group or index does not exist or whose file is empty leaves
  all globals unchanged.
\<close>

theorem StartMotion_priority_gate:
  "(g_hasActiveMotion g \<and> priority < g_activeMotionPriority g \<longrightarrow>
      L2DBridge_StartMotion rd parse grp index priority g = g) \<and>
   (g_model_loaded g \<and> \<not> (g_hasActiveMotion g \<and> priority < g_activeMotionPriority g) \<and>
    g_motionGroups g name = Some entries \<and> 0 \<le> index \<and> index < int (length entries) \<and>
    rd (g_model_modelDir g @ me_file (entries ! nat index)) = text \<and> text \<noteq> [] \<and>
    curves (parse text) \<noteq> [] \<longrightarrow>
      L2DBridge_StartMotion rd parse (Some name) index priority g
        = g\<lparr>g_activeMotion := parse text, g_hasActiveMotion := True,
             g_activeMotionTime := 0, g_activeMotionPriority := priority\<rparr>) \<and>
   (g_motionGroups g name = None \<or>
    (\<exists>entries. g_motionGroups g name = Some entries \<and>
       (index < 0 \<or> int (length entries) \<le> index \<or>
        rd (g_model_modelDir g @ me_file (entries ! nat index)) = [])) \<longrightarrow>
      L2DBridge_StartMotion rd parse (Some name) index priority g = g)"
  by (auto simp: L2DBridge_StartMotion_def Let_def split: option.splits)

theorem StartMotion_priority_gate_witness:
  "g_hasActiveMotion ex_playing \<and> (1::int) < g_activeMotionPriority ex_playing \<and>
   L2DBridge_StartMotion ex_files ex_parse (Some ''TapBody'') 0 1 ex_playing = ex_playing \<and>
   g_activeMotionPriority ex_playing \<le> 2 \<and>
   g_activeMotionTime (L2DBridge_StartMotion ex_files ex_parse (Some ''TapBody'') 0 2 ex_playing) = 0 \<and>
   g_activeMotionPriority (L2DBridge_StartMotion ex_files ex_parse (Some ''TapBody'') 0 5 ex_playing) = 5 \<and>
   g_activeMotion (L2DBridge_StartMotion ex_files ex_parse (Some ''TapBody'') 0 2 ex_playing)
     = ex_motion\<lparr>duration := 2\<rparr> \<and>
   L2DBridge_StartMotion ex_files ex_parse (Some ''TapBody'') 1 2 ex_playing = ex_playing"
  using StartMotion_priority_gate
          [of ex_playing 1 ex_files ex_parse "Some ''TapBody''" 0 "''TapBody''"
              "[\<lparr>me_file = ''tap.motion3.json''\<rparr>]" "''{}''"]
        StartMotion_priority_gate
          [of ex_playing 2 ex_files ex_parse "Some ''TapBody''" 0 "''TapBody''"
              "[\<lparr>me_file = ''tap.motion3.json''\<rparr>]" "''{}''"]
        StartMotion_priority_gate
          [of ex_playing 5 ex_files ex_parse "Some ''TapBody''" 0 "''TapBody''"
              "[\<lparr>me_file = ''tap.motion3.json''\<rparr>]" "''{}''"]
        StartMotion_priority_gate
          [of ex_playing 2 ex_files ex_parse "Some ''TapBody''" 1 "''TapBody''"
              "[\<lparr>me_file = ''tap.motion3.json''\<rparr>]" "''{}''"]
  by (simp add: ex_playing_def ex_files_def ex_parse_def ex_motion_def default_MotionData_def)

section \<open>Properties of the parameter access\<close>

text \<open>
  Claim C10. Neither getter changes the globals. When no model is loaded, or the name is
  null, or the name is not in the parameter map, \<^verbatim>\<open>L2DBridge_GetParameterValue\<close> returns 0
  and \<^verbatim>\<open>L2DBridge_GetParameterRange\<close> returns 1.
\<close>

theorem GetParameter_miss:
  "snd (L2DBridge_GetParameterValue pid g) = g \<and>
   snd (L2DBridge_GetParameterRange pid g) = g \<and>
   (\<not> g_model_loaded g \<or> pid = None \<or> (\<exists>name. pid = Some name \<and> g_model_parameterMap g name = None)
    \<longrightarrow> fst (L2DBridge_GetParameterValue pid g) = 0 \<and>
        fst (L2DBridge_GetParameterRange pid g) = 1)"
  by (auto simp: L2DBridge_GetParameterValue_def L2DBridge_GetParameterRange_def
      split: option.splits)

theorem GetParameter_miss_witness:
  "g_model_parameterMap ex_loaded ''ParamNone'' = None \<and>
   L2DBridge_GetParameterValue (Some ''ParamNone'') ex_loaded = (0, ex_loaded) \<and>
   L2DBridge_GetParameterRange (Some ''ParamNone'') ex_loaded = (1, ex_loaded) \<and>
   L2DBridge_GetParameterValue None ex_loaded = (0, ex_loaded) \<and>
   L2DBridge_GetParameterRange (Some ''ParamAngleX'') initial_globals = (1, initial_globals)"
proof -
  have m: "g_model_parameterMap ex_loaded ''ParamNone'' = None"
    by (simp add: ex_loaded_def)
  have l: "\<not> g_model_loaded initial_globals"
    by (simp add: initial_globals_def)
  show ?thesis
    using m l GetParameter_miss [of "Some ''ParamNone''" ex_loaded]
      GetParameter_miss [of None ex_loaded]
      GetParameter_miss [of "Some ''ParamAngleX''" initial_globals]
    by (simp add: prod_eq_iff)
qed

section \<open>Properties of the draw order\<close>

lemma sort_input_ex:
  "sort_input ex_drawables =
     [\<lparr>ds_index = 0, ds_order = 3\<rparr>, \<lparr>ds_index = 1, ds_order = 1\<rparr>,
      \<lparr>ds_index = 2, ds_order = 2\<rparr>, \<lparr>ds_index = 3, ds_order = 1\<rparr>]"
  by (simp add: sort_input_def ex_drawables_def ex_drawable_def upt_rec)

text \<open>
  Claim C1 as stated fails: for the render orders 3, 1, 2, 1 the sequence index 1,
  index 3, index 0, index 2 draws the drawable of order 3 before the one of order 2, so
  it is not a result of the sort.
\<close>

theorem render_order_claimed_sequence_counterexample:
  "draw_sequence [7] ex_drawables ex_claimed_order = [1, 3, 0, 2] \<and>
   \<not> std_sort_result by_render_order (sort_input ex_drawables) ex_claimed_order"
  by (simp add: draw_sequence_def ex_claimed_order_def is_drawn_def ex_drawables_def
      ex_drawable_def std_sort_result_def by_render_order_def)

lemma ex_both_orders_admitted:
  "std_sort_result by_render_order (sort_input ex_drawables) ex_stable_order \<and>
   std_sort_result by_render_order (sort_input ex_drawables) ex_unstable_order"
  by (simp add: sort_input_ex std_sort_result_def by_render_order_def ex_stable_order_def
      ex_unstable_order_def)

lemma sort_input_member:
  "e \<in> set (sort_input ds) \<longleftrightarrow>
     (\<exists>i < length ds. e = \<lparr>ds_index = int i, ds_order = renderOrder (ds ! i)\<rparr>)"
  by (auto simp: sort_input_def)

lemma std_sort_result_member:
  assumes "std_sort_result by_render_order (sort_input ds) srt" and "e \<in> set srt"
  shows "0 \<le> ds_index e \<and> nat (ds_index e) < length ds \<and>
         ds_order e = renderOrder (ds ! nat (ds_index e))"
proof -
  from assms(1) have "set srt = set (sort_input ds)"
    by (auto simp: std_sort_result_def dest: mset_eq_setD)
  with assms(2) obtain i where "i < length ds"
    "e = \<lparr>ds_index = int i, ds_order = renderOrder (ds ! i)\<rparr>"
    by (auto simp: sort_input_member)
  then show ?thesis by simp
qed

lemma std_sort_result_ascending:
  assumes "std_sort_result by_render_order (sort_input ds) srt"
  shows "sorted_wrt (\<lambda>i j. renderOrder (ds ! nat i) \<le> renderOrder (ds ! nat j))
           (map ds_index srt)"
proof -
  from assms have "sorted_wrt (\<lambda>a b. \<not> by_render_order b a) srt"
    by (simp add: std_sort_result_def)
  then have "sorted_wrt (\<lambda>a b. renderOrder (ds ! nat (ds_index a))
                               \<le> renderOrder (ds ! nat (ds_index b))) srt"
  proof (rule sorted_wrt_mono_rel [rotated])
    fix a b assume "a \<in> set srt" "b \<in> set srt" "\<not> by_render_order b a"
    then show "renderOrder (ds ! nat (ds_index a)) \<le> renderOrder (ds ! nat (ds_index b))"
      using std_sort_result_member [OF assms] by (simp add: by_render_order_def)
  qed
  then show ?thesis by (simp add: sorted_wrt_map)
qed

lemma std_sort_result_indices:
  assumes "std_sort_result by_render_order (sort_input ds) srt"
  shows "mset (map ds_index srt) = mset (map int [0..<length ds])"
proof -
  from assms have "mset srt = mset (sort_input ds)"
    by (simp add: std_sort_result_def)
  then have "mset (map ds_index srt) = mset (map ds_index (sort_input ds))"
    by (metis mset_map)
  also have "map ds_index (sort_input ds) = map int [0..<length ds]"
    by (simp add: sort_input_def)
  finally show ?thesis .
qed

lemma std_sort_result_distinct:
  assumes "std_sort_result by_render_order (sort_input ds) srt"
  shows "distinct (map ds_index srt)"
proof -
  have "distinct (map int [0..<length ds])"
    by (simp add: distinct_map)
  with std_sort_result_indices [OF assms] show ?thesis
    by (metis mset_eq_imp_distinct_iff)
qed

lemma four_keys_input:
  assumes "map renderOrder ds = [3, 1, 2, 1]"
  shows "sort_input ds =
     [\<lparr>ds_index = 0, ds_order = 3\<rparr>, \<lparr>ds_index = 1, ds_order = 1\<rparr>,
      \<lparr>ds_index = 2, ds_order = 2\<rparr>, \<lparr>ds_index = 3, ds_order = 1\<rparr>]"
proof -
  from assms obtain d0 d1 d2 d3 where ds: "ds = [d0, d1, d2, d3]"
    and k: "renderOrder d0 = 3" "renderOrder d1 = 1" "renderOrder d2 = 2" "renderOrder d3 = 1"
    by (auto simp: map_eq_Cons_conv)
  show ?thesis
    unfolding ds sort_input_def using k by (simp add: upt_rec)
qed

lemma sorted_perm_of_four:
  fixes x0 x1 x2 x3 :: DSortInfo
  assumes x: "x0 = \<lparr>ds_index = 0, ds_order = 3\<rparr>" "x1 = \<lparr>ds_index = 1, ds_order = 1\<rparr>"
      "x2 = \<lparr>ds_index = 2, ds_order = 2\<rparr>" "x3 = \<lparr>ds_index = 3, ds_order = 1\<rparr>"
    and m: "mset srt = mset [x0, x1, x2, x3]"
    and s: "sorted_wrt (\<lambda>a b. \<not> ds_order b < ds_order a) srt"
  shows "srt = [x1, x3, x2, x0] \<or> srt = [x3, x1, x2, x0]"
proof -
  from m have "length srt = 4"
    using mset_eq_length [OF m] by simp
  then obtain a b c d where srt: "srt = [a, b, c, d]"
    by (auto simp: length_Suc_conv numeral_eq_Suc)
  from mset_eq_setD [OF m] have st: "set srt = {x0, x1, x2, x3}"
    by simp
  have "distinct [x0, x1, x2, x3]" using x by simp
  with m have di: "distinct srt" by (metis mset_eq_imp_distinct_iff)
  from st srt have mem: "a \<in> {x0, x1, x2, x3}" "b \<in> {x0, x1, x2, x3}"
    "c \<in> {x0, x1, x2, x3}" "d \<in> {x0, x1, x2, x3}" by auto
  from s srt have le: "ds_order a \<le> ds_order b" "ds_order b \<le> ds_order c"
    "ds_order c \<le> ds_order d" by auto
  from di srt have ne: "a \<noteq> b" "a \<noteq> c" "a \<noteq> d" "b \<noteq> c" "b \<noteq> d" "c \<noteq> d" by auto
  have "d = x0"
  proof (rule ccontr)
    assume "d \<noteq> x0"
    with st srt have "x0 \<in> {a, b, c}" by auto
    with le mem(4) \<open>d \<noteq> x0\<close> x show False by auto
  qed
  have "c = x2"
  proof (rule ccontr)
    assume "c \<noteq> x2"
    with st srt \<open>d = x0\<close> x have "x2 \<in> {a, b}" by auto
    with le mem(3) \<open>c \<noteq> x2\<close> \<open>d = x0\<close> ne x show False by auto
  qed
  from mem(1,2) ne \<open>c = x2\<close> \<open>d = x0\<close> have "(a = x1 \<and> b = x3) \<or> (a = x3 \<and> b = x1)"
    by auto
  with srt \<open>c = x2\<close> \<open>d = x0\<close> show ?thesis by auto
qed

lemma four_keys_orders:
  assumes "map renderOrder ds = [3, 1, 2, 1]"
    and "std_sort_result by_render_order (sort_input ds) srt"
  shows "map ds_index srt = [1, 3, 2, 0] \<or> map ds_index srt = [3, 1, 2, 0]"
proof -
  note inp = four_keys_input [OF assms(1)]
  from assms(2) have m: "mset srt = mset (sort_input ds)"
    and s: "sorted_wrt (\<lambda>a b. \<not> ds_order b < ds_order a) srt"
    by (simp_all add: std_sort_result_def by_render_order_def)
  from sorted_perm_of_four [OF refl refl refl refl m [unfolded inp] s]
  show ?thesis by auto
qed

lemma draw_sequence_ascending:
  assumes "std_sort_result by_render_order (sort_input ds) srt"
  shows "sorted_wrt (\<lambda>i j. renderOrder (ds ! nat i) \<le> renderOrder (ds ! nat j))
             (draw_sequence tex ds srt)"
    unfolding draw_sequence_def
    by (rule sorted_wrt_filter) (rule std_sort_result_ascending [OF assms])

lemma draw_sequence_distinct:
  assumes "std_sort_result by_render_order (sort_input ds) srt"
  shows "distinct (draw_sequence tex ds srt)"
    unfolding draw_sequence_def
    by (rule distinct_filter) (rule std_sort_result_distinct [OF assms])

lemma int_upt_set: "set (map int [0..<n]) = {i. 0 \<le> i \<and> i < int n}"
proof (rule set_eqI)
  fix i :: int
  show "i \<in> set (map int [0..<n]) \<longleftrightarrow> i \<in> {i. 0 \<le> i \<and> i < int n}"
  proof
    assume "i \<in> set (map int [0..<n])"
    then show "i \<in> {i. 0 \<le> i \<and> i < int n}" by auto
  next
    assume "i \<in> {i. 0 \<le> i \<and> i < int n}"
    then have "nat i \<in> set [0..<n]" and "i = int (nat i)"
      by (simp_all add: nat_less_iff)
    then show "i \<in> set (map int [0..<n])"
      unfolding set_map by (rule image_eqI [rotated])
  qed
qed

lemma draw_sequence_set:
  assumes "std_sort_result by_render_order (sort_input ds) srt"
  shows "set (draw_sequence tex ds srt)
           = {i. 0 \<le> i \<and> i < int (length ds) \<and> is_drawn tex (ds ! nat i)}"
proof -
  have "set (map ds_index srt) = set (map int [0..<length ds])"
    using std_sort_result_indices [OF assms] by (rule mset_eq_setD)
  then have "set (map ds_index srt) = {i. 0 \<le> i \<and> i < int (length ds)}"
    by (simp only: int_upt_set)
  then show ?thesis
    unfolding draw_sequence_def set_filter by blast
qed

lemma draw_sequence_four_keys:
  assumes "std_sort_result by_render_order (sort_input ds) srt"
    and k: "map renderOrder ds = [3, 1, 2, 1]" and v: "\<forall>d \<in> set ds. is_drawn tex d"
  shows "draw_sequence tex ds srt = [1, 3, 2, 0] \<or> draw_sequence tex ds srt = [3, 1, 2, 0]"
proof -
  have "\<forall>i \<in> set (map ds_index srt). is_drawn tex (ds ! nat i)"
  proof
    fix i assume "i \<in> set (map ds_index srt)"
    then obtain e where "e \<in> set srt" "i = ds_index e" by auto
    with std_sort_result_member [OF assms(1)] have "nat i < length ds" by simp
    with v show "is_drawn tex (ds ! nat i)" by simp
  qed
  then have "draw_sequence tex ds srt = map ds_index srt"
    unfolding draw_sequence_def by (simp add: filter_id_conv)
  with four_keys_orders [OF k assms(1)] show ?thesis by simp
qed

text \<open>
  Claim C1, amended. Whatever result \<^verbatim>\<open>std::sort\<close> leaves, the drawables are drawn in
  ascending render order, each drawable that is not skipped exactly once. For the render
  orders 3, 1, 2, 1 (nothing skipped) the draw sequence is index 1 and index 3 in one of
  the two orders, then index 2, then index 0.
\<close>

theorem render_order_ascending:
  assumes "std_sort_result by_render_order (sort_input ds) srt"
  shows "sorted_wrt (\<lambda>i j. renderOrder (ds ! nat i) \<le> renderOrder (ds ! nat j))
           (draw_sequence tex ds srt) \<and>
         distinct (draw_sequence tex ds srt) \<and>
         set (draw_sequence tex ds srt)
           = {i. 0 \<le> i \<and> i < int (length ds) \<and> is_drawn tex (ds ! nat i)} \<and>
         (map renderOrder ds = [3, 1, 2, 1] \<and> (\<forall>d \<in> set ds. is_drawn tex d) \<longrightarrow>
            draw_sequence tex ds srt = [1, 3, 2, 0] \<or>
            draw_sequence tex ds srt = [3, 1, 2, 0])"
proof (intro conjI impI)
  show "sorted_wrt (\<lambda>i j. renderOrder (ds ! nat i) \<le> renderOrder (ds ! nat j))
           (draw_sequence tex ds srt)"
    by (rule draw_sequence_ascending [OF assms])
  show "distinct (draw_sequence tex ds srt)"
    by (rule draw_sequence_distinct [OF assms])
  show "set (draw_sequence tex ds srt)
           = {i. 0 \<le> i \<and> i < int (length ds) \<and> is_drawn tex (ds ! nat i)}"
    by (rule draw_sequence_set [OF assms])
next
  assume h: "map renderOrder ds = [3, 1, 2, 1] \<and> (\<forall>d \<in> set ds. is_drawn tex d)"
  show "draw_sequence tex ds srt = [1, 3, 2, 0] \<or> draw_sequence tex ds srt = [3, 1, 2, 0]"
    by (rule draw_sequence_four_keys [OF assms conjunct1 [OF h] conjunct2 [OF h]])
qed

theorem render_order_ascending_witness:
  "std_sort_result by_render_order (sort_input ex_drawables) ex_stable_order \<and>
   map renderOrder ex_drawables = [3, 1, 2, 1] \<and>
   draw_sequence [7] ex_drawables ex_stable_order = [1, 3, 2, 0] \<and>
   sorted_wrt (\<lambda>i j. renderOrder (ex_drawables ! nat i) \<le> renderOrder (ex_drawables ! nat j))
     [1, 3, 2, 0]"
proof -
  have h: "std_sort_result by_render_order (sort_input ex_drawables) ex_stable_order"
    using ex_both_orders_admitted by simp
  have k: "map renderOrder ex_drawables = [3, 1, 2, 1]"
    by (simp add: ex_drawables_def ex_drawable_def)
  have v: "\<forall>d \<in> set ex_drawables. is_drawn [7] d"
    by (simp add: ex_drawables_def ex_drawable_def is_drawn_def)
  have s: "draw_sequence [7] ex_drawables ex_stable_order = [1, 3, 2, 0]"
    by (simp add: draw_sequence_def ex_stable_order_def is_drawn_def ex_drawables_def
        ex_drawable_def)
  have "sorted_wrt (\<lambda>i j. renderOrder (ex_drawables ! nat i) \<le> renderOrder (ex_drawables ! nat j))
     (draw_sequence [7] ex_drawables ex_stable_order)"
    using render_order_ascending [OF h, of "[7]"] by (rule conjunct1)
  moreover have "draw_sequence [7] ex_drawables ex_stable_order = [1, 3, 2, 0] \<or>
     draw_sequence [7] ex_drawables ex_stable_order = [3, 1, 2, 0]"
    using render_order_ascending [OF h, of "[7]"] k v by blast
  ultimately show ?thesis using h k s by simp
qed

section \<open>Properties of the input normalisation\<close>

text \<open>
  Claim C9 as stated fails: the finite inputs \<open>val = pMax = 2^127\<close> and
  \<open>pMin = pDef = - 2^127\<close> make both \<^verbatim>\<open>val - pDef\<close> and \<^verbatim>\<open>pMax - pDef\<close> overflow to
  infinity, and the quotient of the two is NaN.
\<close>

theorem normalizePhysInput_overflow_counterexample:
  "normalizePhysInput_f32 (Fin (2^127)) (Fin (- (2^127))) (Fin (2^127)) (Fin (- (2^127)))
     (Fin (-10)) (Fin 0) (Fin 10) = Some NaN"
  by (simp add: normalizePhysInput_f32_def f32_sub_def f32_round_def FLT_MAX_def
      f32_scaled_def f32_div_def)

lemma f32_gt_not_zero: "f32_gt pr (Fin (1/10000)) \<Longrightarrow> pr \<noteq> Fin 0"
  by (cases pr) auto

lemma f32_scaled_defined:
  "f32_gt pr (Fin (1/10000)) \<Longrightarrow> \<exists>r. f32_scaled nDef diff pr nr = Some r"
  by (simp add: f32_scaled_def f32_div_def f32_gt_not_zero)

lemma normalizePhysInput_f32_defined:
  "\<exists>r. normalizePhysInput_f32 val pMin pMax pDef nMin nDef nMax = Some r"
  by (simp add: normalizePhysInput_f32_def Let_def f32_scaled_defined)

lemma f32_round_exact: "\<bar>x\<bar> \<le> 10^17 \<Longrightarrow> f32_round x = Fin x"
  by (simp add: f32_round_def FLT_MAX_def abs_le_iff min_def max_def)

lemma f32_sub_exact:
  "\<bar>x\<bar> \<le> 10^6 \<Longrightarrow> \<bar>y\<bar> \<le> 10^6 \<Longrightarrow> f32_sub (Fin x) (Fin y) = Fin (x - y)"
  unfolding f32_sub_def by (simp add: f32_round_exact)

lemma scaled_bound:
  fixes d p n :: real
  assumes d: "\<bar>d\<bar> \<le> 2 * 10^6" and p: "p > 1/10000" and n: "\<bar>n\<bar> \<le> 2 * 10^6"
  shows "\<bar>d / p\<bar> \<le> 2 * 10^10" and "\<bar>d / p * n\<bar> \<le> 4 * 10^16"
proof -
  from p have "1 \<le> 10000 * p" by simp
  then have "\<bar>d\<bar> \<le> \<bar>d\<bar> * (10000 * p)"
    by (metis abs_ge_zero mult.right_neutral mult_left_mono)
  then have "\<bar>d\<bar> / p \<le> \<bar>d\<bar> * 10000"
    using p by (simp add: pos_divide_le_eq mult.assoc)
  moreover have "\<bar>d / p\<bar> = \<bar>d\<bar> / p" using p by simp
  moreover have "\<bar>d\<bar> * 10000 \<le> 2 * 10^10" using d by simp
  ultimately show q: "\<bar>d / p\<bar> \<le> 2 * 10^10" by linarith
  have "\<bar>d / p\<bar> * \<bar>n\<bar> \<le> (2 * 10^10) * (2 * 10^6)"
    using q n by (intro mult_mono) simp_all
  then show "\<bar>d / p * n\<bar> \<le> 4 * 10^16" by (simp add: abs_mult)
qed

lemma f32_scaled_exact:
  assumes "\<bar>nDef\<bar> \<le> 10^6" "\<bar>d\<bar> \<le> 2 * 10^6" "p > 1/10000" "\<bar>n\<bar> \<le> 2 * 10^6"
  shows "f32_scaled (Fin nDef) (Fin d) (Fin p) (Fin n) = Some (Fin (nDef + d / p * n))"
proof -
  note b = scaled_bound [OF assms(2,3,4)]
  have 1: "f32_round (d / p) = Fin (d / p)" using b(1) by (intro f32_round_exact) simp
  have 2: "f32_round (d / p * n) = Fin (d / p * n)" using b(2) by (intro f32_round_exact) simp
  have "\<bar>nDef + d / p * n\<bar> \<le> 10^6 + 4 * 10^16" using assms(1) b(2) by linarith
  then have 3: "f32_round (nDef + d / p * n) = Fin (nDef + d / p * n)"
    by (intro f32_round_exact) simp
  from assms(3) have "p \<noteq> 0" by auto
  with 1 2 3 show ?thesis by (simp add: f32_scaled_def f32_div_def)
qed

lemma normalizePhysInput_f32_exact:
  assumes "\<bar>val\<bar> \<le> 10^6" "\<bar>pMin\<bar> \<le> 10^6" "\<bar>pMax\<bar> \<le> 10^6" "\<bar>pDef\<bar> \<le> 10^6"
    "\<bar>nMin\<bar> \<le> 10^6" "\<bar>nDef\<bar> \<le> 10^6" "\<bar>nMax\<bar> \<le> 10^6"
  shows "normalizePhysInput_f32 (Fin val) (Fin pMin) (Fin pMax) (Fin pDef)
           (Fin nMin) (Fin nDef) (Fin nMax)
         = Some (Fin (normalizePhysInput val pMin pMax pDef nMin nDef nMax))"
proof -
  have d: "\<bar>val - pDef\<bar> \<le> 2 * 10^6" using assms by linarith
  have n1: "\<bar>nMax - nDef\<bar> \<le> 2 * 10^6" and n2: "\<bar>nDef - nMin\<bar> \<le> 2 * 10^6"
    using assms by linarith+
  have sub: "f32_sub (Fin val) (Fin pDef) = Fin (val - pDef)"
    "f32_sub (Fin pMax) (Fin pDef) = Fin (pMax - pDef)"
    "f32_sub (Fin nMax) (Fin nDef) = Fin (nMax - nDef)"
    "f32_sub (Fin pDef) (Fin pMin) = Fin (pDef - pMin)"
    "f32_sub (Fin nDef) (Fin nMin) = Fin (nDef - nMin)"
    using assms by (simp_all only: f32_sub_exact)
  consider (up) "val - pDef > 1/10000" "pMax - pDef > 1/10000"
    | (up_flat) "val - pDef > 1/10000" "\<not> pMax - pDef > 1/10000"
    | (down) "\<not> val - pDef > 1/10000" "val - pDef < - (1/10000)" "pDef - pMin > 1/10000"
    | (down_flat) "\<not> val - pDef > 1/10000" "val - pDef < - (1/10000)"
        "\<not> pDef - pMin > 1/10000"
    | (near) "\<not> val - pDef > 1/10000" "\<not> val - pDef < - (1/10000)"
    by blast
  then show ?thesis
  proof cases
    case up
    have "f32_scaled (Fin nDef) (Fin (val - pDef)) (Fin (pMax - pDef)) (Fin (nMax - nDef))
       = Some (Fin (nDef + (val - pDef) / (pMax - pDef) * (nMax - nDef)))"
      by (rule f32_scaled_exact [OF assms(6) d up(2) n1])
    with up show ?thesis
      unfolding normalizePhysInput_f32_def normalizePhysInput_def Let_def sub f32_lt_def
      by (simp only: f32_gt.simps if_True)
  next
    case up_flat
    then show ?thesis
      unfolding normalizePhysInput_f32_def normalizePhysInput_def Let_def sub f32_lt_def
      by (simp only: f32_gt.simps if_True if_False)
  next
    case down
    have "f32_scaled (Fin nDef) (Fin (val - pDef)) (Fin (pDef - pMin)) (Fin (nDef - nMin))
       = Some (Fin (nDef + (val - pDef) / (pDef - pMin) * (nDef - nMin)))"
      by (rule f32_scaled_exact [OF assms(6) d down(3) n2])
    with down show ?thesis
      unfolding normalizePhysInput_f32_def normalizePhysInput_def Let_def sub f32_lt_def
      by (simp only: f32_gt.simps if_True if_False)
  next
    case down_flat
    then show ?thesis
      unfolding normalizePhysInput_f32_def normalizePhysInput_def Let_def sub f32_lt_def
      by (simp only: f32_gt.simps if_True if_False)
  next
    case near
    then show ?thesis
      unfolding normalizePhysInput_f32_def normalizePhysInput_def Let_def sub f32_lt_def
      by (simp only: f32_gt.simps if_True if_False)
  qed
qed

text \<open>
  Claim C9, amended. \<^verbatim>\<open>normalizePhysInput\<close> never divides by zero, whatever its inputs
  are. For finite inputs of magnitude at most \<open>10^6\<close> no operation overflows and the
  result is the finite number that the function computes on real numbers: the
  normalisation default when the source value is within 0.0001 of the parameter default,
  and the normalisation maximum (minimum) when the value is above (below) that and the
  positive-side (negative-side) parameter range is at most 0.0001.
\<close>

theorem normalizePhysInput_safe:
  "(\<exists>r. normalizePhysInput_f32 v pMin pMax pDef nMin nDef nMax = Some r) \<and>
   (v = Fin val \<and> pMin = Fin a \<and> pMax = Fin b \<and> pDef = Fin d \<and>
    nMin = Fin na \<and> nDef = Fin nd \<and> nMax = Fin nb \<and>
    \<bar>val\<bar> \<le> 10^6 \<and> \<bar>a\<bar> \<le> 10^6 \<and> \<bar>b\<bar> \<le> 10^6 \<and> \<bar>d\<bar> \<le> 10^6 \<and>
    \<bar>na\<bar> \<le> 10^6 \<and> \<bar>nd\<bar> \<le> 10^6 \<and> \<bar>nb\<bar> \<le> 10^6 \<longrightarrow>
      normalizePhysInput_f32 v pMin pMax pDef nMin nDef nMax
        = Some (Fin (normalizePhysInput val a b d na nd nb)) \<and>
      (\<bar>val - d\<bar> \<le> 1/10000 \<longrightarrow> normalizePhysInput val a b d na nd nb = nd) \<and>
      (val - d > 1/10000 \<and> b - d \<le> 1/10000 \<longrightarrow>
         normalizePhysInput val a b d na nd nb = nb) \<and>
      (val - d < - (1/10000) \<and> d - a \<le> 1/10000 \<longrightarrow>
         normalizePhysInput val a b d na nd nb = na))"
proof (intro conjI impI)
  show "\<exists>r. normalizePhysInput_f32 v pMin pMax pDef nMin nDef nMax = Some r"
    by (rule normalizePhysInput_f32_defined)
next
  assume h: "v = Fin val \<and> pMin = Fin a \<and> pMax = Fin b \<and> pDef = Fin d \<and>
    nMin = Fin na \<and> nDef = Fin nd \<and> nMax = Fin nb \<and>
    \<bar>val\<bar> \<le> 10^6 \<and> \<bar>a\<bar> \<le> 10^6 \<and> \<bar>b\<bar> \<le> 10^6 \<and> \<bar>d\<bar> \<le> 10^6 \<and>
    \<bar>na\<bar> \<le> 10^6 \<and> \<bar>nd\<bar> \<le> 10^6 \<and> \<bar>nb\<bar> \<le> 10^6"
  then show "normalizePhysInput_f32 v pMin pMax pDef nMin nDef nMax
        = Some (Fin (normalizePhysInput val a b d na nd nb))"
    by (simp add: normalizePhysInput_f32_exact)
  show "\<bar>val - d\<bar> \<le> 1/10000 \<Longrightarrow> normalizePhysInput val a b d na nd nb = nd"
  proof -
    assume "\<bar>val - d\<bar> \<le> 1/10000"
    then have "\<not> val - d > 1/10000" "\<not> val - d < - (1/10000)" by linarith+
    then show ?thesis
      unfolding normalizePhysInput_def Let_def by (simp only: if_False)
  qed
  show "val - d > 1/10000 \<and> b - d \<le> 1/10000 \<Longrightarrow> normalizePhysInput val a b d na nd nb = nb"
    by (simp add: normalizePhysInput_def Let_def)
  show "val - d < - (1/10000) \<and> d - a \<le> 1/10000 \<Longrightarrow>
         normalizePhysInput val a b d na nd nb = na"
    by (simp add: normalizePhysInput_def Let_def)
qed

theorem normalizePhysInput_safe_witness:
  "normalizePhysInput_f32 (Fin 15) (Fin (-30)) (Fin 30) (Fin 0) (Fin (-10)) (Fin 0) (Fin 10)
     = Some (Fin 5) \<and>
   normalizePhysInput_f32 (Fin 15) (Fin (-30)) (Fin 0) (Fin 0) (Fin (-10)) (Fin 0) (Fin 10)
     = Some (Fin 10) \<and>
   normalizePhysInput_f32 (Fin (-15)) (Fin 0) (Fin 30) (Fin 0) (Fin (-10)) (Fin 0) (Fin 10)
     = Some (Fin (-10)) \<and>
   normalizePhysInput_f32 (Fin 0) (Fin (-30)) (Fin 30) (Fin 0) (Fin (-10)) (Fin 0) (Fin 10)
     = Some (Fin 0)"
  using normalizePhysInput_safe
          [of "Fin 15" "Fin (-30)" "Fin 30" "Fin 0" "Fin (-10)" "Fin 0" "Fin 10"
              15 "-30" 30 0 "-10" 0 10]
        normalizePhysInput_safe
          [of "Fin 15" "Fin (-30)" "Fin 0" "Fin 0" "Fin (-10)" "Fin 0" "Fin 10"
              15 "-30" 0 0 "-10" 0 10]
        normalizePhysInput_safe
          [of "Fin (-15)" "Fin 0" "Fin 30" "Fin 0" "Fin (-10)" "Fin 0" "Fin 10"
              "-15" 0 30 0 "-10" 0 10]
        normalizePhysInput_safe
          [of "Fin 0" "Fin (-30)" "Fin 30" "Fin 0" "Fin (-10)" "Fin 0" "Fin 10"
              0 "-30" 30 0 "-10" 0 10]
  by (simp add: normalizePhysInput_def)

section \<open>Properties of the pose layer\<close>

lemma is_dominant_unique:
  assumes "is_dominant vs d" and "is_dominant vs e"
  shows "d = e"
proof (rule ccontr)
  assume "d \<noteq> e"
  then consider "d < e" | "e < d" by linarith
  then show False
  proof cases
    case 1
    with assms have "vs ! d < vs ! e" "vs ! e \<le> vs ! d"
      by (simp_all add: is_dominant_def)
    then show False by simp
  next
    case 2
    with assms have "vs ! e < vs ! d" "vs ! d \<le> vs ! e"
      by (simp_all add: is_dominant_def)
    then show False by simp
  qed
qed

lemma dom_inv_step:
  assumes "dom_inv pre (mx, d)" and "0 \<le> v"
  shows "dom_inv (pre @ [v]) (if v > mx then (v, length pre) else (mx, d))"
proof (cases "pre = []")
  case True
  with assms show ?thesis
    by (auto simp: dom_inv_def is_dominant_def)
next
  case False
  with assms(1) have dom: "is_dominant pre d" and mx: "mx = pre ! d"
    by (simp_all add: dom_inv_def)
  from dom have d: "d < length pre" by (simp add: is_dominant_def)
  show ?thesis
  proof (cases "v > mx")
    case True
    have "is_dominant (pre @ [v]) (length pre)"
      unfolding is_dominant_def
    proof (intro conjI allI impI)
      show "length pre < length (pre @ [v])" by simp
    next
      fix j assume "j < length (pre @ [v])"
      then consider "j < length pre" | "j = length pre" by fastforce
      then show "(pre @ [v]) ! j \<le> (pre @ [v]) ! length pre"
      proof cases
        case 1
        with dom have "pre ! j \<le> pre ! d" by (simp add: is_dominant_def)
        with 1 True mx show ?thesis by (simp add: nth_append)
      next
        case 2
        then show ?thesis by simp
      qed
    next
      fix j assume j: "j < length pre"
      with dom have "pre ! j \<le> pre ! d" by (simp add: is_dominant_def)
      with j True mx show "(pre @ [v]) ! j < (pre @ [v]) ! length pre"
        by (simp add: nth_append)
    qed
    with True show ?thesis by (simp add: dom_inv_def)
  next
    case False
    have "is_dominant (pre @ [v]) d"
      unfolding is_dominant_def
    proof (intro conjI allI impI)
      show "d < length (pre @ [v])" using d by simp
    next
      fix j assume "j < length (pre @ [v])"
      then consider "j < length pre" | "j = length pre" by fastforce
      then show "(pre @ [v]) ! j \<le> (pre @ [v]) ! d"
      proof cases
        case 1
        with dom have "pre ! j \<le> pre ! d" by (simp add: is_dominant_def)
        with 1 d show ?thesis by (simp add: nth_append)
      next
        case 2
        with False mx d show ?thesis by (simp add: nth_append)
      qed
    next
      fix j assume j: "j < d"
      with dom have "pre ! j < pre ! d" by (simp add: is_dominant_def)
      with j d show "(pre @ [v]) ! j < (pre @ [v]) ! d"
        by (simp add: nth_append)
    qed
    with False mx d show ?thesis by (simp add: dom_inv_def nth_append)
  qed
qed

lemma pose_dominant_inv:
  assumes "dom_inv pre acc"
    and "\<forall>p \<in> set ps. 0 \<le> partIndex p \<and> 0 \<le> opa (partIndex p)"
    and "i = length pre"
  shows "dom_inv (pre @ member_opacities opa ps) (pose_dominant opa ps i acc)"
  using assms
proof (induction ps arbitrary: pre acc i)
  case Nil
  then show ?case by (simp add: member_opacities_def)
next
  case (Cons p ps)
  obtain mx d where acc: "acc = (mx, d)" by (cases acc)
  let ?v = "opa (partIndex p)"
  let ?acc = "if ?v > mx then (?v, length pre) else (mx, d)"
  from Cons.prems have v: "0 \<le> ?v" and pi: "\<not> partIndex p < 0" by auto
  from dom_inv_step [OF Cons.prems(1) [unfolded acc] v]
  have inv: "dom_inv (pre @ [?v]) ?acc" .
  have "dom_inv ((pre @ [?v]) @ member_opacities opa ps) (pose_dominant opa ps (Suc i) ?acc)"
    using Cons.prems by (intro Cons.IH inv) auto
  moreover have "pose_dominant opa (p # ps) i acc = pose_dominant opa ps (Suc i) ?acc"
    using pi acc Cons.prems(3) by simp
  ultimately show ?case by (simp add: member_opacities_def)
qed

lemma pose_dominant_is_dominant:
  assumes "grp \<noteq> []"
    and "\<forall>p \<in> set grp. 0 \<le> partIndex p \<and> 0 \<le> opa (partIndex p)"
  shows "is_dominant (member_opacities opa grp) (snd (pose_dominant opa grp 0 (0, 0)))"
proof -
  have "dom_inv [] (0, 0)" by (simp add: dom_inv_def)
  from pose_dominant_inv [OF this assms(2), of 0]
  have "dom_inv (member_opacities opa grp) (pose_dominant opa grp 0 (0, 0))" by simp
  with assms(1) show ?thesis by (simp add: dom_inv_def member_opacities_def)
qed

lemma fold_links:
  "fold (\<lambda>linkIdx s. s(linkIdx := s pidx)) ls s0 x = (if x \<in> set ls then s0 pidx else s0 x)"
  by (induction ls arbitrary: s0) auto

lemma pose_fade_frame:
  assumes "x \<notin> partIndex ` set ps" and "x \<notin> set (concat (map linkIndices ps))"
  shows "pose_fade rnd dt d ps i s x = s x"
  using assms
proof (induction ps arbitrary: i s)
  case Nil
  then show ?case by simp
next
  case (Cons p ps)
  from Cons.prems have x: "x \<noteq> partIndex p" "x \<notin> set (linkIndices p)"
    and rest: "x \<notin> partIndex ` set ps" "x \<notin> set (concat (map linkIndices ps))"
    by auto
  show ?case
    using x Cons.IH [OF rest] by (simp add: Let_def fold_links)
qed

lemma pose_fade_member:
  assumes "distinct (map partIndex ps)"
    and "\<forall>p \<in> set ps. 0 \<le> partIndex p"
    and "\<forall>p \<in> set ps. \<forall>l \<in> set (linkIndices p). l \<notin> partIndex ` set ps"
    and "k < length ps"
  shows "pose_fade rnd dt d ps i s (partIndex (ps ! k))
         = fade_value rnd dt (i + k = d) (s (partIndex (ps ! k)))"
  using assms
proof (induction ps arbitrary: i s k)
  case Nil
  then show ?case by simp
next
  case (Cons p ps)
  let ?s1 = "s(partIndex p := fade_value rnd dt (i = d) (s (partIndex p)))"
  let ?s2 = "fold (\<lambda>linkIdx s. s(linkIdx := s (partIndex p))) (linkIndices p) ?s1"
  from Cons.prems(2) have nn: "\<not> partIndex p < 0" by auto
  then have unfold: "pose_fade rnd dt d (p # ps) i s = pose_fade rnd dt d ps (Suc i) ?s2"
    by (simp add: Let_def)
  have dist: "distinct (map partIndex ps)" and pos: "\<forall>q \<in> set ps. 0 \<le> partIndex q"
    and lnk: "\<forall>q \<in> set ps. \<forall>l \<in> set (linkIndices q). l \<notin> partIndex ` set ps"
    using Cons.prems by auto
  show ?case
  proof (cases k)
    case 0
    have "partIndex p \<notin> partIndex ` set ps"
      using Cons.prems(1) by auto
    moreover have "partIndex p \<notin> set (concat (map linkIndices ps))"
      using Cons.prems(3) by auto
    ultimately have "pose_fade rnd dt d ps (Suc i) ?s2 (partIndex p) = ?s2 (partIndex p)"
      by (rule pose_fade_frame)
    also have "\<dots> = fade_value rnd dt (i = d) (s (partIndex p))"
      by (simp add: fold_links)
    finally show ?thesis using 0 unfold by simp
  next
    case (Suc k')
    with Cons.prems(4) have k': "k' < length ps" by simp
    then have mem: "ps ! k' \<in> set ps" by simp
    then have "partIndex (ps ! k') \<in> partIndex ` set ps"
      by (rule imageI)
    moreover have "partIndex p \<notin> partIndex ` set ps"
      using Cons.prems(1) by simp
    ultimately have "partIndex (ps ! k') \<noteq> partIndex p"
      by metis
    moreover have "partIndex (ps ! k') \<notin> set (linkIndices p)"
      using Cons.prems(3) mem by auto
    ultimately have same: "?s2 (partIndex (ps ! k')) = s (partIndex (ps ! k'))"
      by (simp add: fold_links)
    have "pose_fade rnd dt d ps (Suc i) ?s2 (partIndex (ps ! k'))
          = fade_value rnd dt (Suc i + k' = d) (?s2 (partIndex (ps ! k')))"
      by (rule Cons.IH [OF dist pos lnk k'])
    with same Suc unfold show ?thesis by simp
  qed
qed

lemma pose_group_frame:
  assumes "x \<notin> partIndex ` set grp" and "x \<notin> set (concat (map linkIndices grp))"
  shows "pose_group rnd dt grp opa x = opa x"
  unfolding pose_group_def using assms by (rule pose_fade_frame)

lemma pose_group_member:
  assumes "grp \<noteq> []"
    and "distinct (map partIndex grp)"
    and "\<forall>p \<in> set grp. 0 \<le> partIndex p"
    and "\<forall>p \<in> set grp. \<forall>l \<in> set (linkIndices p). l \<notin> partIndex ` set grp"
    and "\<forall>p \<in> set grp. 0 \<le> opa (partIndex p)"
    and "is_dominant (member_opacities opa grp) d"
    and "k < length grp"
  shows "pose_group rnd dt grp opa (partIndex (grp ! k))
         = fade_value rnd dt (k = d) (opa (partIndex (grp ! k)))"
proof -
  have "is_dominant (member_opacities opa grp) (snd (pose_dominant opa grp 0 (0, 0)))"
    using assms(1,3,5) by (intro pose_dominant_is_dominant) auto
  with assms(6) have "snd (pose_dominant opa grp 0 (0, 0)) = d"
    by (rule is_dominant_unique [rotated])
  then show ?thesis
    unfolding pose_group_def
    using pose_fade_member [OF assms(2,3,4,7), of rnd dt d 0 opa] by simp
qed

lemma pose_wf_tail:
  assumes "pose_wf (g1 # rest)"
  shows "pose_wf rest"
  using assms unfolding pose_wf_def by simp

lemma pose_wf_head:
  assumes "pose_wf (g1 # rest)"
  shows "g1 \<noteq> []" and "distinct (map partIndex g1)"
    and "\<forall>p \<in> set g1. 0 \<le> partIndex p"
    and "\<forall>p \<in> set g1. \<forall>l \<in> set (linkIndices p). l \<notin> partIndex ` set g1"
  using assms unfolding pose_wf_def by simp_all

lemma pose_wf_head_rest:
  assumes "pose_wf (g1 # rest)" and "gb \<in> set rest" and "q \<in> set gb"
  shows "partIndex q \<notin> partIndex ` set g1"
    and "partIndex q \<notin> set (concat (map linkIndices g1))"
proof -
  from assms(1) have "set (map partIndex g1) \<inter> set (concat (map (map partIndex) rest)) = {}"
    unfolding pose_wf_def by simp
  moreover have "partIndex q \<in> set (concat (map (map partIndex) rest))"
    using assms(2,3) by auto
  ultimately show "partIndex q \<notin> partIndex ` set g1" by auto
  have "\<forall>p \<in> set g1. \<forall>l \<in> set (linkIndices p). l \<notin> partIndex ` set gb"
    using assms(1,2) unfolding pose_wf_def by simp
  with assms(3) show "partIndex q \<notin> set (concat (map linkIndices g1))"
    by auto
qed

lemma pose_wf_rest_head:
  assumes "pose_wf (g1 # rest)" and "gb \<in> set rest" and "q \<in> set g1"
  shows "partIndex q \<notin> partIndex ` set gb"
    and "partIndex q \<notin> set (concat (map linkIndices gb))"
proof -
  from assms(1) have "set (map partIndex g1) \<inter> set (concat (map (map partIndex) rest)) = {}"
    unfolding pose_wf_def by simp
  moreover have "partIndex ` set gb \<subseteq> set (concat (map (map partIndex) rest))"
    using assms(2) by auto
  moreover have "partIndex q \<in> set (map partIndex g1)"
    using assms(3) by simp
  ultimately show "partIndex q \<notin> partIndex ` set gb" by blast
  have "\<forall>p \<in> set gb. \<forall>l \<in> set (linkIndices p). l \<notin> partIndex ` set g1"
    using assms(1,2) unfolding pose_wf_def by simp
  with assms(3) show "partIndex q \<notin> set (concat (map linkIndices gb))"
    by auto
qed

lemma fold_groups_frame:
  assumes "\<forall>gb \<in> set gs. x \<notin> partIndex ` set gb \<and> x \<notin> set (concat (map linkIndices gb))"
  shows "fold (pose_group rnd dt) gs opa x = opa x"
  using assms
proof (induction gs arbitrary: opa)
  case Nil
  then show ?case by simp
next
  case (Cons g1 gs)
  then have "fold (pose_group rnd dt) gs (pose_group rnd dt g1 opa) x = pose_group rnd dt g1 opa x"
    by simp
  also have "\<dots> = opa x"
    using Cons.prems by (intro pose_group_frame) simp_all
  finally show ?case by simp
qed

lemma fold_groups_member:
  assumes "pose_wf groups" and "grp \<in> set groups"
    and "\<forall>gb \<in> set groups. \<forall>p \<in> set gb. 0 \<le> opa (partIndex p)"
    and "is_dominant (member_opacities opa grp) d"
    and "k < length grp"
  shows "fold (pose_group rnd dt) groups opa (partIndex (grp ! k))
         = fade_value rnd dt (k = d) (opa (partIndex (grp ! k)))"
  using assms
proof (induction groups arbitrary: opa)
  case Nil
  then show ?case by simp
next
  case (Cons g1 rest)
  note wf = Cons.prems(1)
  let ?opa1 = "pose_group rnd dt g1 opa"
  let ?x = "partIndex (grp ! k)"
  from Cons.prems(5) have mem: "grp ! k \<in> set grp" by simp
  show ?case
  proof (cases "grp = g1")
    case True
    have "\<forall>gb \<in> set rest. ?x \<notin> partIndex ` set gb \<and> ?x \<notin> set (concat (map linkIndices gb))"
      using pose_wf_rest_head [OF wf] mem True by blast
    then have "fold (pose_group rnd dt) rest ?opa1 ?x = ?opa1 ?x"
      by (rule fold_groups_frame)
    also have "\<dots> = fade_value rnd dt (k = d) (opa ?x)"
      unfolding True
      using pose_wf_head [OF wf] Cons.prems(3,4,5) True
      by (intro pose_group_member) simp_all
    finally show ?thesis by simp
  next
    case False
    with Cons.prems(2) have in_rest: "grp \<in> set rest" by simp
    have same: "?opa1 (partIndex q) = opa (partIndex q)" if "gb \<in> set rest" "q \<in> set gb" for gb q
      using pose_wf_head_rest [OF wf that] by (intro pose_group_frame)
    have nn: "\<forall>gb \<in> set rest. \<forall>p \<in> set gb. 0 \<le> ?opa1 (partIndex p)"
      using same Cons.prems(3) by simp
    have "member_opacities ?opa1 grp = member_opacities opa grp"
      unfolding member_opacities_def using same [OF in_rest] by simp
    with Cons.prems(4) have dom: "is_dominant (member_opacities ?opa1 grp) d" by simp
    have "fold (pose_group rnd dt) rest ?opa1 ?x = fade_value rnd dt (k = d) (?opa1 ?x)"
      by (rule Cons.IH [OF pose_wf_tail [OF wf] in_rest nn dom Cons.prems(5)])
    also have "?opa1 ?x = opa ?x" using same [OF in_rest mem] .
    finally show ?thesis by simp
  qed
qed

lemma fade_progress_exact:
  assumes "0 < dt"
  shows "fade_progress (\<lambda>x. x) dt (dt * POSE_FADE_SPEED)"
  using assms by (simp add: fade_progress_def POSE_FADE_SPEED_def)

lemma fade_value_bounds:
  assumes p: "fade_progress rnd dt \<delta>"
    and b: "fade_bounds t b v w"
    and v: "0 \<le> v" "v \<le> 1" and t: "0 \<le> t"
  shows "fade_bounds (t + \<delta>) b v (fade_value rnd dt b w)"
proof -
  from p have dl: "0 < \<delta>" by (simp add: fade_progress_def)
  show ?thesis
  proof (cases b)
    case True
    with b have w: "min 1 (v + t) \<le> w" "w \<le> 1" by (simp_all add: fade_bounds_def)
    from v t have "0 \<le> min 1 (v + t)" by simp
    with w(1) have "0 \<le> w" by linarith
    with p w(2) have x: "w + \<delta> \<le> rnd (w + rnd (dt * POSE_FADE_SPEED))"
      by (simp add: fade_progress_def)
    have "min 1 (v + (t + \<delta>)) \<le> min 1 (w + \<delta>)"
      using w(1) dl by (auto simp: min_def split: if_splits)
    also have "\<dots> \<le> fade_value rnd dt True w"
      using x by (simp add: fade_value_def Let_def min_def)
    finally have "min 1 (v + (t + \<delta>)) \<le> fade_value rnd dt True w" .
    moreover have "fade_value rnd dt True w \<le> 1"
      by (simp add: fade_value_def Let_def)
    ultimately show ?thesis using True by (simp add: fade_bounds_def)
  next
    case False
    with b have w: "0 \<le> w" "w \<le> max 0 (v - t)" by (simp_all add: fade_bounds_def)
    from v t have "max 0 (v - t) \<le> 1" by simp
    with w(2) have "w \<le> 1" by linarith
    with p w(1) have x: "rnd (w - rnd (dt * POSE_FADE_SPEED)) \<le> w - \<delta>"
      by (simp add: fade_progress_def)
    have "fade_value rnd dt False w \<le> max 0 (w - \<delta>)"
      using x by (simp add: fade_value_def Let_def max_def)
    also have "\<dots> \<le> max 0 (v - (t + \<delta>))"
      using w(2) dl by (auto simp: max_def split: if_splits)
    finally have "fade_value rnd dt False w \<le> max 0 (v - (t + \<delta>))" .
    moreover have "0 \<le> fade_value rnd dt False w"
      by (simp add: fade_value_def Let_def)
    ultimately show ?thesis using False by (simp add: fade_bounds_def)
  qed
qed

lemma fade_bounds_zero:
  assumes "0 \<le> v" and "v \<le> 1"
  shows "fade_bounds 0 b v v"
  using assms by (simp add: fade_bounds_def)

lemma fade_bounds_unit:
  assumes "fade_bounds t b v w" and "0 \<le> v" and "v \<le> 1" and "0 \<le> t"
  shows "0 \<le> w" and "w \<le> 1"
  using assms by (auto simp: fade_bounds_def min_def max_def split: if_splits)

lemma fade_bounds_limit:
  assumes "fade_bounds t b v w" and "0 \<le> v" and "v \<le> 1" and "1 \<le> t"
  shows "w = (if b then 1 else 0)"
  using assms by (auto simp: fade_bounds_def min_def max_def split: if_splits)

lemma is_dominant_bounds:
  assumes dom: "is_dominant vs d"
    and unit: "\<forall>j < length vs. 0 \<le> vs ! j \<and> vs ! j \<le> 1"
    and t: "0 \<le> t"
    and len: "length ws = length vs"
    and ws: "\<forall>j < length vs. fade_bounds t (j = d) (vs ! j) (ws ! j)"
  shows "is_dominant ws d"
  unfolding is_dominant_def
proof (intro conjI allI impI)
  from dom have d: "d < length vs" by (simp add: is_dominant_def)
  then show "d < length ws" using len by simp
  from ws d have "min 1 (vs ! d + t) \<le> ws ! d" by (simp add: fade_bounds_def)
  moreover from unit d t have "vs ! d \<le> min 1 (vs ! d + t)" by simp
  ultimately have vd: "vs ! d \<le> ws ! d" by linarith
  have low: "ws ! j \<le> vs ! j" if "j < length vs" "j \<noteq> d" for j
  proof -
    from ws that have "ws ! j \<le> max 0 (vs ! j - t)" by (simp add: fade_bounds_def)
    moreover from unit that(1) t have "max 0 (vs ! j - t) \<le> vs ! j" by simp
    ultimately show ?thesis by linarith
  qed
  {
    fix j assume j: "j < length ws"
    show "ws ! j \<le> ws ! d"
    proof (cases "j = d")
      case True
      then show ?thesis by simp
    next
      case False
      from j len have jl: "j < length vs" by simp
      from dom jl have "vs ! j \<le> vs ! d" by (simp add: is_dominant_def)
      with low [OF jl False] vd show ?thesis by linarith
    qed
  }
  {
    fix j assume j: "j < d"
    with d have jl: "j < length vs" and ne: "j \<noteq> d" by simp_all
    from dom j have "vs ! j < vs ! d" by (simp add: is_dominant_def)
    with low [OF jl ne] vd show "ws ! j < ws ! d" by linarith
  }
qed

lemma updatePose_groups_funpow:
  assumes wf: "pose_wf groups"
    and unit: "\<forall>gb \<in> set groups. \<forall>p \<in> set gb. 0 \<le> opa (partIndex p) \<and> opa (partIndex p) \<le> 1"
    and pr: "fade_progress rnd dt \<delta>"
    and grp: "grp \<in> set groups"
    and dom: "is_dominant (member_opacities opa grp) d"
    and k: "k < length grp"
  shows "fade_bounds (real n * \<delta>) (k = d) (opa (partIndex (grp ! k)))
           ((updatePose_groups rnd dt groups ^^ n) opa (partIndex (grp ! k)))"
  using grp dom k
proof (induction n arbitrary: grp d k)
  case 0
  from unit 0 have "0 \<le> opa (partIndex (grp ! k)) \<and> opa (partIndex (grp ! k)) \<le> 1"
    by simp
  then show ?case by (simp add: fade_bounds_zero)
next
  case (Suc n)
  let ?t = "real n * \<delta>"
  let ?opn = "(updatePose_groups rnd dt groups ^^ n) opa"
  from pr have dl: "0 < \<delta>" by (simp add: fade_progress_def)
  then have t: "0 \<le> ?t" by simp
  have wfg: "gb \<noteq> [] \<and> (\<forall>p \<in> set gb. 0 \<le> partIndex p)" if "gb \<in> set groups" for gb
    using wf that by (simp add: pose_wf_def)
  have val: "fade_bounds ?t (j = e) (opa (partIndex (gb ! j))) (?opn (partIndex (gb ! j)))"
    if "gb \<in> set groups" "is_dominant (member_opacities opa gb) e" "j < length gb" for gb e j
    using Suc.IH [OF that] .
  have nn: "\<forall>gb \<in> set groups. \<forall>p \<in> set gb. 0 \<le> ?opn (partIndex p)"
  proof (intro ballI)
    fix gb p assume gb: "gb \<in> set groups" and p: "p \<in> set gb"
    from p obtain j where j: "j < length gb" "p = gb ! j"
      by (auto simp: in_set_conv_nth)
    have "is_dominant (member_opacities opa gb) (snd (pose_dominant opa gb 0 (0, 0)))"
      using wfg [OF gb] unit gb by (intro pose_dominant_is_dominant) auto
    from val [OF gb this j(1)] have "fade_bounds ?t (j = snd (pose_dominant opa gb 0 (0, 0)))
        (opa (partIndex p)) (?opn (partIndex p))" using j(2) by simp
    moreover from unit gb p have "0 \<le> opa (partIndex p)" "opa (partIndex p) \<le> 1" by simp_all
    ultimately show "0 \<le> ?opn (partIndex p)" using t by (rule fade_bounds_unit(1))
  qed
  have "is_dominant (member_opacities ?opn grp) d"
  proof (rule is_dominant_bounds [OF Suc.prems(2) _ t])
    show "\<forall>j < length (member_opacities opa grp).
            0 \<le> member_opacities opa grp ! j \<and> member_opacities opa grp ! j \<le> 1"
      using unit Suc.prems(1) by (simp add: member_opacities_def)
    show "length (member_opacities ?opn grp) = length (member_opacities opa grp)"
      by (simp add: member_opacities_def)
    show "\<forall>j < length (member_opacities opa grp).
            fade_bounds ?t (j = d) (member_opacities opa grp ! j) (member_opacities ?opn grp ! j)"
      using val [OF Suc.prems(1,2)] by (simp add: member_opacities_def)
  qed
  then have step: "fold (pose_group rnd dt) groups ?opn (partIndex (grp ! k))
             = fade_value rnd dt (k = d) (?opn (partIndex (grp ! k)))"
    by (rule fold_groups_member [OF wf Suc.prems(1) nn _ Suc.prems(3)])
  from unit Suc.prems(1,3)
  have u: "0 \<le> opa (partIndex (grp ! k))" "opa (partIndex (grp ! k)) \<le> 1" by simp_all
  have "fade_bounds (?t + \<delta>) (k = d) (opa (partIndex (grp ! k)))
          (fade_value rnd dt (k = d) (?opn (partIndex (grp ! k))))"
    using pr val [OF Suc.prems] u t by (rule fade_value_bounds)
  moreover have "?t + \<delta> = real (Suc n) * \<delta>"
    by (simp add: algebra_simps)
  moreover have "(updatePose_groups rnd dt groups ^^ Suc n) opa
                 = fold (pose_group rnd dt) groups ?opn"
    by (simp add: updatePose_groups_def [of rnd dt groups ?opn])
  ultimately show ?case using step by simp
qed

lemma updatePose_groups_converged:
  assumes wf: "pose_wf groups"
    and unit: "\<forall>gb \<in> set groups. \<forall>p \<in> set gb. 0 \<le> opa (partIndex p) \<and> opa (partIndex p) \<le> 1"
    and pr: "fade_progress rnd dt \<delta>"
    and n: "1 \<le> real n * \<delta>"
    and grp: "grp \<in> set groups"
    and dom: "is_dominant (member_opacities opa grp) d"
    and k: "k < length grp"
  shows "(updatePose_groups rnd dt groups ^^ n) opa (partIndex (grp ! k)) = (if k = d then 1 else 0)"
proof -
  from unit grp k
  have u: "0 \<le> opa (partIndex (grp ! k))" "opa (partIndex (grp ! k)) \<le> 1" by simp_all
  from updatePose_groups_funpow [OF wf unit pr grp dom k, of n] u n
  show ?thesis by (rule fade_bounds_limit)
qed

lemma pose_dominant_first_greatest:
  assumes wf: "pose_wf groups"
    and unit: "\<forall>gb \<in> set groups. \<forall>p \<in> set gb. 0 \<le> opa (partIndex p) \<and> opa (partIndex p) \<le> 1"
    and grp: "grp \<in> set groups"
    and dom: "is_dominant (member_opacities opa grp) d"
  shows "snd (pose_dominant opa grp 0 (0, 0)) = d"
proof -
  have "grp \<noteq> []" "\<forall>p \<in> set grp. 0 \<le> partIndex p"
    using wf grp by (simp_all add: pose_wf_def)
  then have "is_dominant (member_opacities opa grp) (snd (pose_dominant opa grp 0 (0, 0)))"
    using unit grp by (intro pose_dominant_is_dominant) auto
  with dom show ?thesis by (rule is_dominant_unique [rotated])
qed

lemma updatePose_funpow:
  assumes "g_hasPose g" and "g_model_loaded g"
  shows "(updatePose rnd dt ^^ n) g
         = g\<lparr>csmPartOpacities :=
               (updatePose_groups rnd dt (g_poseGroups g) ^^ n) (csmPartOpacities g)\<rparr>"
proof (induction n)
  case 0
  then show ?case by simp
next
  case (Suc n)
  then show ?case using assms by (simp add: updatePose_def)
qed

lemma updatePose_eventually:
  assumes "g_hasPose g" and "g_model_loaded g"
    and "pose_wf (g_poseGroups g)"
    and "\<forall>gb \<in> set (g_poseGroups g). \<forall>p \<in> set gb.
           0 \<le> csmPartOpacities g (partIndex p) \<and> csmPartOpacities g (partIndex p) \<le> 1"
    and "fade_progress rnd dt \<delta>"
  shows "\<exists>N. \<forall>n \<ge> N. \<forall>grp \<in> set (g_poseGroups g). \<forall>k < length grp.
           csmPartOpacities ((updatePose rnd dt ^^ n) g) (partIndex (grp ! k))
           = (if k = snd (pose_dominant (csmPartOpacities g) grp 0 (0, 0)) then 1 else 0)"
proof -
  from assms(5) have s: "0 < \<delta>" by (simp add: fade_progress_def)
  then obtain N where N: "1 < real N * \<delta>"
    using ex_less_of_nat_mult by blast
  have "csmPartOpacities ((updatePose rnd dt ^^ n) g) (partIndex (grp ! k))
        = (if k = snd (pose_dominant (csmPartOpacities g) grp 0 (0, 0)) then 1 else 0)"
    if n: "N \<le> n" and grp: "grp \<in> set (g_poseGroups g)" and k: "k < length grp" for n grp k
  proof -
    from n have "real N * \<delta> \<le> real n * \<delta>"
      using s by (intro mult_right_mono) simp_all
    with N have n1: "1 \<le> real n * \<delta>" by linarith
    have "grp \<noteq> []" "\<forall>p \<in> set grp. 0 \<le> partIndex p"
      using assms(3) grp by (simp_all add: pose_wf_def)
    then have dom: "is_dominant (member_opacities (csmPartOpacities g) grp)
                      (snd (pose_dominant (csmPartOpacities g) grp 0 (0, 0)))"
      using assms(4) grp by (intro pose_dominant_is_dominant) auto
    from updatePose_groups_converged [OF assms(3,4,5) n1 grp dom k]
    show ?thesis by (simp add: updatePose_funpow [OF assms(1,2)])
  qed
  then show ?thesis by blast
qed

lemma binary32_fade_progress:
  assumes "0 < \<delta>"
    and "\<delta> + 1 / 2 ^ 24 \<le> binary32 (dt * POSE_FADE_SPEED)"
    and "binary32 (dt * POSE_FADE_SPEED) < 1"
  shows "fade_progress binary32 dt \<delta>"
  unfolding fade_progress_def
proof (intro conjI allI impI)
  let ?s = "binary32 (dt * POSE_FADE_SPEED)"
  show "0 < \<delta>" by (rule assms(1))
  have "(0::real) < 1 / 2 ^ 24" by simp
  with assms(1,2) have s: "0 < ?s" by linarith
  fix v :: real
  assume v: "0 \<le> v \<and> v \<le> 1"
  with s assms(3) have "\<bar>v + ?s\<bar> < 2" by simp
  from binary32_error [OF this] assms(2) show "v + \<delta> \<le> binary32 (v + ?s)"
    by linarith
  from v s assms(3) have "\<bar>v - ?s\<bar> < 2" by (simp add: abs_less_iff)
  from binary32_error [OF this] assms(2) show "binary32 (v - ?s) \<le> v - \<delta>"
    by linarith
qed

lemma fade_progress_binary32_60: "fade_progress binary32 (binary32 (1/60)) (1/13)"
proof (rule binary32_fade_progress)
  let ?d = "binary32 (1/60)"
  have "\<bar>1/60::real\<bar> < 2" by simp
  from binary32_error [OF this] have d: "\<bar>?d - 1/60\<bar> \<le> 1/16777216" by simp
  then have "\<bar>?d * 5\<bar> < 2" by linarith
  from binary32_error [OF this] have s: "\<bar>binary32 (?d * 5) - ?d * 5\<bar> \<le> 1/16777216"
    by simp
  show "(0::real) < 1/13" by simp
  from d s have "1/13 + 1/16777216 \<le> binary32 (?d * 5)" by linarith
  then show "1/13 + 1 / 2 ^ 24 \<le> binary32 (?d * POSE_FADE_SPEED)"
    by (simp add: POSE_FADE_SPEED_def)
  from d s have "binary32 (?d * 5) < 1" by linarith
  then show "binary32 (?d * POSE_FADE_SPEED) < 1"
    by (simp add: POSE_FADE_SPEED_def)
qed

lemma fade_value_absorbed:
  "fade_value binary32 ex_tiny_dt True (1/2) = 1/2"
  "fade_value binary32 ex_tiny_dt False (1/4) = 1/4"
proof -
  have a: "ex_tiny_dt * POSE_FADE_SPEED = 5 / 2 ^ 30"
    by (simp add: POSE_FADE_SPEED_def ex_tiny_dt_def)
  show "fade_value binary32 ex_tiny_dt True (1/2) = 1/2"
    unfolding fade_value_def Let_def a binary32_tiny_step binary32_half_absorbs by simp
  show "fade_value binary32 ex_tiny_dt False (1/4) = 1/4"
    unfolding fade_value_def Let_def a binary32_tiny_step binary32_quarter_absorbs by simp
qed

text \<open>
  Claim C8 as stated fails, in two ways. In the state that loading leaves for a group
  whose first member is unresolved, \<^verbatim>\<open>dominantIdx\<close> is 0, the unresolved member, which has
  no opacity; the only resolved member keeps the opacity 0 in every frame, and no member
  of the group ever reaches 1, in exact arithmetic and in binary32 alike. And in binary32
  a frame time of \<open>2 ^ -30\<close> seconds moves no opacity: the step \<open>5 * 2 ^ -30\<close> is below half
  the spacing of the floats at 1/2 and at 1/4, the sum and the difference round back, and
  two resolved members at 1/4 and 1/2 keep these opacities in every frame.
\<close>

theorem updatePose_stuck_counterexample:
  "snd (pose_dominant (csmPartOpacities ex_pose_unresolved)
          (hd (g_poseGroups ex_pose_unresolved)) 0 (0, 0)) = 0 \<and>
   partIndex (hd (g_poseGroups ex_pose_unresolved) ! 0) = -1 \<and>
   csmPartOpacities ex_pose_unresolved 1 = 0 \<and>
   updatePose (\<lambda>x. x) (1/8) ex_pose_unresolved = ex_pose_unresolved \<and>
   (updatePose (\<lambda>x. x) (1/8) ^^ 100) ex_pose_unresolved = ex_pose_unresolved \<and>
   updatePose binary32 (1/8) ex_pose_unresolved = ex_pose_unresolved \<and>
   (updatePose binary32 (1/8) ^^ 100) ex_pose_unresolved = ex_pose_unresolved \<and>
   pose_wf (g_poseGroups ex_pose_quarter) \<and>
   csmPartOpacities ex_pose_quarter 0 = 1/4 \<and>
   csmPartOpacities ex_pose_quarter 1 = 1/2 \<and>
   0 < ex_tiny_dt \<and>
   updatePose binary32 ex_tiny_dt ex_pose_quarter = ex_pose_quarter \<and>
   (updatePose binary32 ex_tiny_dt ^^ 100) ex_pose_quarter = ex_pose_quarter"
proof -
  have fp: "updatePose (\<lambda>x. x) (1/8) ex_pose_unresolved = ex_pose_unresolved"
    by (simp add: updatePose_def ex_pose_unresolved_def updatePose_groups_def pose_group_def
        fade_value_def POSE_FADE_SPEED_def Let_def fun_upd_idem)
  have it: "(updatePose (\<lambda>x. x) (1/8) ^^ n) ex_pose_unresolved = ex_pose_unresolved" for n
    by (induction n) (simp_all add: fp)
  have fb: "updatePose binary32 (1/8) ex_pose_unresolved = ex_pose_unresolved"
    by (simp add: updatePose_def ex_pose_unresolved_def updatePose_groups_def pose_group_def
        fade_value_def POSE_FADE_SPEED_def Let_def fun_upd_idem binary32_5_8 binary32_m5_8)
  have ib: "(updatePose binary32 (1/8) ^^ n) ex_pose_unresolved = ex_pose_unresolved" for n
    by (induction n) (simp_all add: fb)
  have fq: "updatePose binary32 ex_tiny_dt ex_pose_quarter = ex_pose_quarter"
    by (simp add: updatePose_def ex_pose_quarter_def updatePose_groups_def pose_group_def
        fade_value_absorbed Let_def fun_upd_idem)
  have iq: "(updatePose binary32 ex_tiny_dt ^^ n) ex_pose_quarter = ex_pose_quarter" for n
    by (induction n) (simp_all add: fq)
  have w: "pose_wf (g_poseGroups ex_pose_quarter)"
    by (simp add: ex_pose_quarter_def pose_wf_def)
  have o: "csmPartOpacities ex_pose_quarter 0 = 1/4" "csmPartOpacities ex_pose_quarter 1 = 1/2"
    "0 < ex_tiny_dt"
    by (simp_all add: ex_pose_quarter_def ex_tiny_dt_def)
  have u: "snd (pose_dominant (csmPartOpacities ex_pose_unresolved)
          (hd (g_poseGroups ex_pose_unresolved)) 0 (0, 0)) = 0"
    "partIndex (hd (g_poseGroups ex_pose_unresolved) ! 0) = -1"
    "csmPartOpacities ex_pose_unresolved 1 = 0"
    by (simp_all add: ex_pose_unresolved_def)
  from u fp it [of 100] fb ib [of 100] w o fq iq [of 100] show ?thesis
    by (intro conjI)
qed

text \<open>
  Claim C8, amended. Let every member of every pose group be resolved, no part index
  occur twice among the members of all groups, and no linked index be the part index of a
  member; let the members' opacities be in \<open>[0, 1]\<close>, and let the fade step of the
  constant \<open>dt\<close> not be lost to rounding: each frame moves an opacity in \<open>[0, 1]\<close> by at
  least \<open>\<delta> > 0\<close> before the clamp (\<open>fade_progress_exact\<close>, \<open>binary32_fade_progress\<close>:
  in exact arithmetic every \<open>dt > 0\<close> does so with the whole step, in binary32 every
  \<open>dt\<close> whose rounded step is above \<open>2 ^ -24\<close> and below 1 does so with the step less
  \<open>2 ^ -24\<close>). Then every group has a first member with the greatest initial opacity,
  it is the member that \<^verbatim>\<open>updatePose\<close> finds dominant, and after every number \<open>n\<close> of
  frames with \<open>n * \<delta> \<ge> 1\<close> its opacity is exactly 1 and the opacity of every other
  member of the group is exactly 0.
\<close>

theorem updatePose_converges:
  assumes "g_hasPose g" and "g_model_loaded g"
    and "pose_wf (g_poseGroups g)"
    and "\<forall>gb \<in> set (g_poseGroups g). \<forall>p \<in> set gb.
           0 \<le> csmPartOpacities g (partIndex p) \<and> csmPartOpacities g (partIndex p) \<le> 1"
    and "fade_progress rnd dt \<delta>" and "1 \<le> real n * \<delta>"
    and "grp \<in> set (g_poseGroups g)"
  shows "\<exists>d. is_dominant (member_opacities (csmPartOpacities g) grp) d \<and>
             snd (pose_dominant (csmPartOpacities g) grp 0 (0, 0)) = d \<and>
             (\<forall>k < length grp.
                csmPartOpacities ((updatePose rnd dt ^^ n) g) (partIndex (grp ! k))
                = (if k = d then 1 else 0))"
proof -
  let ?d = "snd (pose_dominant (csmPartOpacities g) grp 0 (0, 0))"
  have "grp \<noteq> []" "\<forall>p \<in> set grp. 0 \<le> partIndex p"
    using assms(3,7) by (simp_all add: pose_wf_def)
  then have dom: "is_dominant (member_opacities (csmPartOpacities g) grp) ?d"
    using assms(4,7) by (intro pose_dominant_is_dominant) auto
  have "csmPartOpacities ((updatePose rnd dt ^^ n) g) (partIndex (grp ! k))
        = (if k = ?d then 1 else 0)" if "k < length grp" for k
    using updatePose_groups_converged [OF assms(3-7) dom that]
    by (simp add: updatePose_funpow [OF assms(1,2)])
  with dom show ?thesis by blast
qed

theorem updatePose_converges_witness:
  "pose_wf (g_poseGroups ex_pose_arms) \<and>
   is_dominant (member_opacities (csmPartOpacities ex_pose_arms) (hd (g_poseGroups ex_pose_arms))) 1 \<and>
   fade_progress (\<lambda>x. x) (1/10) (1/2) \<and> 1 \<le> real 2 * (1/2) \<and>
   csmPartOpacities ((updatePose (\<lambda>x. x) (1/10) ^^ 2) ex_pose_arms) 0 = 0 \<and>
   csmPartOpacities ((updatePose (\<lambda>x. x) (1/10) ^^ 2) ex_pose_arms) 1 = 1 \<and>
   fade_progress binary32 (binary32 (1/60)) (1/13) \<and> 1 \<le> real 13 * (1/13) \<and>
   csmPartOpacities ((updatePose binary32 (binary32 (1/60)) ^^ 13) ex_pose_arms) 0 = 0 \<and>
   csmPartOpacities ((updatePose binary32 (binary32 (1/60)) ^^ 13) ex_pose_arms) 1 = 1"
proof -
  let ?grp = "[\<lparr>partIndex = 0, linkIndices = []\<rparr>, \<lparr>partIndex = 1, linkIndices = [2]\<rparr>]"
  let ?opa = "csmPartOpacities ex_pose_arms"
  have a: "g_hasPose ex_pose_arms" "g_model_loaded ex_pose_arms"
    by (simp_all add: ex_pose_arms_def)
  have g: "g_poseGroups ex_pose_arms = [?grp]" by (simp add: ex_pose_arms_def)
  have w: "pose_wf (g_poseGroups ex_pose_arms)"
    by (simp add: g pose_wf_def)
  have u: "\<forall>gb \<in> set (g_poseGroups ex_pose_arms). \<forall>p \<in> set gb.
           0 \<le> csmPartOpacities ex_pose_arms (partIndex p) \<and>
           csmPartOpacities ex_pose_arms (partIndex p) \<le> 1"
    by (simp add: ex_pose_arms_def)
  have m: "?grp \<in> set (g_poseGroups ex_pose_arms)" by (simp add: g)
  have mo: "member_opacities ?opa ?grp = [2/5, 3/5]"
    by (simp add: member_opacities_def ex_pose_arms_def)
  have "\<forall>j < Suc (Suc 0). [2/5, 3/5::real] ! j \<le> 3/5"
    by (simp add: less_Suc_eq)
  then have dm: "is_dominant (member_opacities ?opa ?grp) 1"
    unfolding mo by (simp add: is_dominant_def)
  have k0: "(0::nat) < length ?grp" and k1: "(1::nat) < length ?grp" by simp_all
  have res: "csmPartOpacities ((updatePose rnd dt ^^ n) ex_pose_arms) 0 = 0 \<and>
             csmPartOpacities ((updatePose rnd dt ^^ n) ex_pose_arms) 1 = 1"
    if pr: "fade_progress rnd dt \<delta>" and n: "1 \<le> real n * \<delta>" for rnd dt \<delta> n
  proof -
    from updatePose_converges [OF a w u pr n m] obtain d
      where d: "is_dominant (member_opacities ?opa ?grp) d"
        and v: "\<forall>k < length ?grp.
                  csmPartOpacities ((updatePose rnd dt ^^ n) ex_pose_arms)
                    (partIndex (?grp ! k)) = (if k = d then 1 else 0)"
      by blast
    from d dm have d1: "d = 1" by (rule is_dominant_unique)
    from v k0 have "csmPartOpacities ((updatePose rnd dt ^^ n) ex_pose_arms)
                    (partIndex (?grp ! 0)) = (if 0 = d then 1 else 0)" by blast
    with d1 have e0: "csmPartOpacities ((updatePose rnd dt ^^ n) ex_pose_arms) 0 = 0"
      by simp
    from v k1 have "csmPartOpacities ((updatePose rnd dt ^^ n) ex_pose_arms)
                    (partIndex (?grp ! 1)) = (if 1 = d then 1 else 0)" by blast
    with d1 have e1: "csmPartOpacities ((updatePose rnd dt ^^ n) ex_pose_arms) 1 = 1"
      by simp
    from e0 e1 show ?thesis by (rule conjI)
  qed
  have pr: "fade_progress (\<lambda>x. x) (1/10) (1/2)"
    using fade_progress_exact [of "1/10"] by (simp add: POSE_FADE_SPEED_def)
  have n: "1 \<le> real 2 * (1/2)" by simp
  have prb: "fade_progress binary32 (binary32 (1/60)) (1/13)"
    by (rule fade_progress_binary32_60)
  have nb: "1 \<le> real 13 * (1/13)" by simp
  from w dm g pr n res [OF pr n] prb nb res [OF prb nb] show ?thesis by simp
qed

section \<open>Properties of the physics simulation\<close>






lemma vdist_snapped_exact:
  assumes "\<not> \<bar>vx pos\<bar> < 1/1000 \<or> vx pos = 0"
  shows "particle_snapped pos = pos"
  using assms by (auto simp: particle_snapped_def)


lemma particles_loop_length [simp]:
  "length (particles_loop curGrav wnd dt prev ps) = length ps"
  by (induction ps arbitrary: prev) (simp_all add: Let_def)



















section \<open>Properties of the external override channel\<close>

lemma map_store_member: "(k, v) \<in> set (map_store k v es)"
  by (induction es) auto

lemma map_store_keys: "set (map fst (map_store k v es)) = insert k (set (map fst es))"
proof (induction es)
  case Nil
  then show ?case by simp
next
  case (Cons e es)
  obtain k' v' where e: "e = (k', v')" by (cases e)
  consider "k < k'" | "k = k'" | "\<not> k < k'" "k \<noteq> k'" by blast
  then show ?case
  proof cases
    case 1
    with e show ?thesis by simp
  next
    case 2
    with e show ?thesis by simp
  next
    case 3
    with e Cons.IH show ?thesis by (simp add: insert_commute)
  qed
qed

lemma map_store_sorted:
  assumes "sorted_wrt (<) (map fst es)"
  shows "sorted_wrt (<) (map fst (map_store k v es))"
  using assms
proof (induction es)
  case Nil
  then show ?case by simp
next
  case (Cons e es)
  obtain k' v' where e: "e = (k', v')" by (cases e)
  from Cons.prems have tail: "sorted_wrt (<) (map fst es)" by simp
  show ?case
  proof (cases "k < k'")
    case True
    with Cons.prems e show ?thesis by auto
  next
    case False
    show ?thesis
    proof (cases "k = k'")
      case True
      with Cons.prems e show ?thesis by auto
    next
      case ne: False
      with False have lt: "k' < k" by simp
      have "\<forall>x \<in> set (map fst (map_store k v es)). k' < x"
        unfolding map_store_keys using Cons.prems e lt by simp
      with Cons.IH [OF tail] e False ne show ?thesis by simp
    qed
  qed
qed

lemma map_erase_sorted:
  assumes "sorted_wrt (<) (map fst es)"
  shows "sorted_wrt (<) (map fst (map_erase k es))"
  using assms unfolding map_erase_def
  by (induction es) auto

lemma map_erase_keys: "k \<notin> fst ` set (map_erase k es)"
  by (auto simp: map_erase_def)

lemma sorted_keys_distinct:
  assumes "sorted_wrt (<) (map fst es)"
  shows "distinct (map fst (es :: (int \<times> 'v) list))"
  using assms by (simp add: strict_sorted_iff)

lemma map_store_entry:
  assumes "sorted_wrt (<) (map fst es)"
    and "e \<in> set (map_store k v es)" and "fst e = k"
  shows "e = (k, v)"
proof -
  have "distinct (map fst (map_store k v es))"
    by (intro sorted_keys_distinct map_store_sorted assms(1))
  moreover have "(k, snd e) \<in> set (map_store k v es)"
    using assms(2,3) by (metis prod.collapse)
  moreover note map_store_member [of k v es]
  ultimately have "snd e = v" by (rule eq_key_imp_eq_value)
  with assms(3) show ?thesis by (metis prod.collapse)
qed

lemma apply_override_other:
  assumes "k \<noteq> fst ov"
  shows "apply_override pc ov pv k = pv k"
  using assms by (simp add: apply_override_def Let_def)

lemma fold_apply_override_other:
  assumes "k \<notin> set (map fst ovs)"
  shows "fold (apply_override pc) ovs pv k = pv k"
  using assms
proof (induction ovs arbitrary: pv)
  case Nil
  then show ?case by simp
next
  case (Cons ov ovs)
  then have "fold (apply_override pc) ovs (apply_override pc ov pv) k = apply_override pc ov pv k"
    by simp
  also have "\<dots> = pv k" using Cons.prems by (intro apply_override_other) simp
  finally show ?case by simp
qed

lemma fold_apply_override:
  assumes "distinct (map fst ovs)" and "(k, (v, w)) \<in> set ovs"
    and "0 \<le> k" and "k < pc"
  shows "fold (apply_override pc) ovs pv k = (if w \<ge> 1 then v else pv k * (1 - w) + v * w)"
  using assms(1,2)
proof (induction ovs arbitrary: pv)
  case Nil
  then show ?case by simp
next
  case (Cons ov ovs)
  show ?case
  proof (cases "ov = (k, (v, w))")
    case True
    with Cons.prems(1) have "k \<notin> set (map fst ovs)" by simp
    then have "fold (apply_override pc) ovs (apply_override pc ov pv) k
               = apply_override pc ov pv k"
      by (rule fold_apply_override_other)
    also have "\<dots> = (if w \<ge> 1 then v else pv k * (1 - w) + v * w)"
      using True assms(3,4) by (simp add: apply_override_def)
    finally show ?thesis by simp
  next
    case False
    with Cons.prems(2) have mem: "(k, (v, w)) \<in> set ovs" by simp
    then have "k \<in> set (map fst ovs)" by force
    moreover from Cons.prems(1) have "fst ov \<notin> set (map fst ovs)" by simp
    ultimately have "k \<noteq> fst ov" by metis
    then have same: "apply_override pc ov pv k = pv k"
      by (rule apply_override_other)
    from Cons.prems(1) have "distinct (map fst ovs)" by simp
    from Cons.IH [OF this mem, of "apply_override pc ov pv"] same
    show ?thesis by simp
  qed
qed

lemma physics_output_frame:
  "g_externalOverrides (physics_output ps out g) = g_externalOverrides g"
  "csmParameterCount (physics_output ps out g) = csmParameterCount g"
  by (simp_all add: physics_output_def Let_def)

lemma fold_physics_output_frame:
  "g_externalOverrides (fold (physics_output ps) outs g) = g_externalOverrides g \<and>
   csmParameterCount (fold (physics_output ps) outs g) = csmParameterCount g"
  by (induction outs arbitrary: g) (simp_all add: physics_output_frame)

lemma physics_subrig_frame:
  "g_externalOverrides (snd (physics_subrig dt wnd sub g)) = g_externalOverrides g \<and>
   csmParameterCount (snd (physics_subrig dt wnd sub g)) = csmParameterCount g"
  by (simp add: physics_subrig_def Let_def fold_physics_output_frame)

lemma physics_loop_frame:
  "g_externalOverrides (snd (physics_loop dt wnd subs g)) = g_externalOverrides g \<and>
   csmParameterCount (snd (physics_loop dt wnd subs g)) = csmParameterCount g"
proof (induction subs arbitrary: g)
  case Nil
  then show ?case by simp
next
  case (Cons s subs)
  from Cons.IH [of "snd (physics_subrig dt wnd s g)"] physics_subrig_frame [of dt wnd s g]
  show ?case by (simp add: split_beta)
qed

lemma updatePhysics_frame:
  "g_externalOverrides (updatePhysics dt g) = g_externalOverrides g \<and>
   csmParameterCount (updatePhysics dt g) = csmParameterCount g"
  using physics_loop_frame [of dt "wind (g_physics g)" "settings (g_physics g)" g]
  by (simp add: updatePhysics_def split_beta)

lemma expression_blend_frame:
  "g_externalOverrides (expression_blend w ep g) = g_externalOverrides g \<and>
   csmParameterCount (expression_blend w ep g) = csmParameterCount g"
  by (simp add: expression_blend_def Let_def split: option.splits)

lemma fold_expression_blend_frame:
  "g_externalOverrides (fold (expression_blend w) eps g) = g_externalOverrides g \<and>
   csmParameterCount (fold (expression_blend w) eps g) = csmParameterCount g"
  by (induction eps arbitrary: g) (simp_all add: expression_blend_frame)

lemma renderModel_expression_frame:
  "g_externalOverrides (renderModel_expression dt g) = g_externalOverrides g \<and>
   csmParameterCount (renderModel_expression dt g) = csmParameterCount g"
  by (simp add: renderModel_expression_def Let_def fold_expression_blend_frame
      expression_fade_def split: option.splits)

lemma updatePose_parameters:
  "csmParameterValues (updatePose rnd dt g) = csmParameterValues g"
  by (simp add: updatePose_def)

lemma renderModel_layers_override:
  assumes "sorted_wrt (<) (map fst (g_externalOverrides g))"
    and "(pidx, (v, w)) \<in> set (g_externalOverrides g)"
    and "0 \<le> pidx" and "pidx < csmParameterCount g"
  shows "csmParameterValues (renderModel_layers rnd dt g) pidx
         = (if w \<ge> 1 then v
            else csmParameterValues (updatePhysics dt (renderModel_expression dt g)) pidx * (1 - w)
                 + v * w)"
proof -
  let ?g1 = "updatePhysics dt (renderModel_expression dt g)"
  have ov: "g_externalOverrides ?g1 = g_externalOverrides g"
    and pc: "csmParameterCount ?g1 = csmParameterCount g"
    by (simp_all add: updatePhysics_frame renderModel_expression_frame)
  have "distinct (map fst (g_externalOverrides g))"
    using assms(1) by (rule sorted_keys_distinct)
  from fold_apply_override [OF this assms(2,3,4), of "csmParameterValues ?g1"]
  show ?thesis
    by (simp add: renderModel_layers_def updatePose_parameters renderModel_overrides_def ov pc)
qed

lemma SetParameterValue_sorted:
  assumes "sorted_wrt (<) (map fst (g_externalOverrides g))"
  shows "sorted_wrt (<) (map fst (g_externalOverrides (L2DBridge_SetParameterValue pid val weight g)))"
  using assms
  by (simp add: L2DBridge_SetParameterValue_def map_store_sorted map_erase_sorted
      split: option.splits)

text \<open>
  Claim C5. On a loaded model and for a name in the parameter map,
  \<^verbatim>\<open>L2DBridge_SetParameterValue\<close> with a weight below 0.001 leaves no override stored for
  the parameter; with any other weight it leaves exactly the override with the given value
  and weight. In the frame the overrides are applied to the parameter values that the
  physics step has left, and the result is what the final model update reads: for a stored
  override, weight \<open>\<ge> 1\<close> makes the parameter the override value and a smaller weight makes
  it the interpolation of the value after physics toward the override value.
\<close>

theorem external_override_channel:
  assumes "sorted_wrt (<) (map fst (g_externalOverrides g))"
  shows "(g_model_loaded g \<and> g_model_parameterMap g name = Some h \<and> weight < 1/1000 \<longrightarrow>
            h \<notin> set (map fst (g_externalOverrides
                    (L2DBridge_SetParameterValue (Some name) val weight g)))) \<and>
         (g_model_loaded g \<and> g_model_parameterMap g name = Some h \<and> \<not> weight < 1/1000 \<longrightarrow>
            (h, (val, weight)) \<in> set (g_externalOverrides
                    (L2DBridge_SetParameterValue (Some name) val weight g)) \<and>
            (\<forall>e \<in> set (g_externalOverrides
                    (L2DBridge_SetParameterValue (Some name) val weight g)).
               fst e = h \<longrightarrow> e = (h, (val, weight)))) \<and>
         sorted_wrt (<) (map fst (g_externalOverrides
            (L2DBridge_SetParameterValue pid val weight g))) \<and>
         ((pidx, (v, w)) \<in> set (g_externalOverrides g) \<and> 0 \<le> pidx \<and>
          pidx < csmParameterCount g \<longrightarrow>
            csmParameterValues (renderModel_layers rnd dt g) pidx
              = (if w \<ge> 1 then v
                 else csmParameterValues (updatePhysics dt (renderModel_expression dt g)) pidx
                        * (1 - w) + v * w))"
proof (intro conjI impI)
  assume h: "g_model_loaded g \<and> g_model_parameterMap g name = Some h \<and> weight < 1/1000"
  then show "h \<notin> set (map fst (g_externalOverrides
                    (L2DBridge_SetParameterValue (Some name) val weight g)))"
    using map_erase_keys [of h "g_externalOverrides g"]
    by (simp add: L2DBridge_SetParameterValue_def)
next
  assume h: "g_model_loaded g \<and> g_model_parameterMap g name = Some h \<and> \<not> weight < 1/1000"
  then have ov: "g_externalOverrides (L2DBridge_SetParameterValue (Some name) val weight g)
                 = map_store h (val, weight) (g_externalOverrides g)"
    by (simp add: L2DBridge_SetParameterValue_def)
  show "(h, (val, weight)) \<in> set (g_externalOverrides
                    (L2DBridge_SetParameterValue (Some name) val weight g))"
    unfolding ov by (rule map_store_member)
  show "\<forall>e \<in> set (g_externalOverrides
                    (L2DBridge_SetParameterValue (Some name) val weight g)).
               fst e = h \<longrightarrow> e = (h, (val, weight))"
    unfolding ov using map_store_entry [OF assms] by blast
next
  show "sorted_wrt (<) (map fst (g_externalOverrides
            (L2DBridge_SetParameterValue pid val weight g)))"
    using assms by (rule SetParameterValue_sorted)
next
  assume "(pidx, (v, w)) \<in> set (g_externalOverrides g) \<and> 0 \<le> pidx \<and>
          pidx < csmParameterCount g"
  then show "csmParameterValues (renderModel_layers rnd dt g) pidx
              = (if w \<ge> 1 then v
                 else csmParameterValues (updatePhysics dt (renderModel_expression dt g)) pidx
                        * (1 - w) + v * w)"
    using renderModel_layers_override [OF assms, of pidx v w rnd dt] by blast
qed

theorem external_override_channel_witness:
  "sorted_wrt (<) (map fst (g_externalOverrides ex_lipsync)) \<and>
   g_externalOverrides (L2DBridge_SetParameterValue (Some ''ParamMouthOpenY'') 0 0 ex_lipsync)
     = [] \<and>
   g_externalOverrides (L2DBridge_SetParameterValue (Some ''ParamAngleX'') 30 1 ex_lipsync)
     = [(0, (30, 1)), (1, (1, 1/2))] \<and>
   csmParameterValues (updatePhysics (1/60) (renderModel_expression (1/60) ex_lipsync)) 1 = 1/2 \<and>
   csmParameterValues (renderModel_layers (\<lambda>x. x) (1/60) ex_lipsync) 1 = 3/4"
proof -
  have s: "sorted_wrt (<) (map fst (g_externalOverrides ex_lipsync))"
    by (simp add: ex_lipsync_def)
  have m: "g_model_loaded ex_lipsync"
    "g_model_parameterMap ex_lipsync ''ParamMouthOpenY'' = Some 1"
    "g_model_parameterMap ex_lipsync ''ParamAngleX'' = Some 0"
    by (simp_all add: ex_lipsync_def ex_loaded_def)
  have o: "(1, (1, 1/2)) \<in> set (g_externalOverrides ex_lipsync)"
    "(0::int) \<le> 1" "1 < csmParameterCount ex_lipsync"
    by (simp_all add: ex_lipsync_def ex_loaded_def)
  have p: "csmParameterValues (updatePhysics (1/60) (renderModel_expression (1/60) ex_lipsync)) 1
           = 1/2"
    by (simp add: updatePhysics_def renderModel_expression_def ex_lipsync_def ex_loaded_def
        initial_globals_def default_PhysicsRig_def)
  have e: "g_externalOverrides (L2DBridge_SetParameterValue (Some ''ParamMouthOpenY'') 0 0 ex_lipsync)
     = []"
    by (simp add: L2DBridge_SetParameterValue_def m map_erase_def) (simp add: ex_lipsync_def)
  have a: "g_externalOverrides (L2DBridge_SetParameterValue (Some ''ParamAngleX'') 30 1 ex_lipsync)
     = [(0, (30, 1)), (1, (1, 1/2))]"
    by (simp add: L2DBridge_SetParameterValue_def m) (simp add: ex_lipsync_def)
  from external_override_channel [OF s, of "''ParamMouthOpenY''" 1 0 0 None 1 1 "1/2"
      "\<lambda>x. x" "1/60"]
    m o p
  have "csmParameterValues (renderModel_layers (\<lambda>x. x) (1/60) ex_lipsync) 1 = 3/4"
    by simp
  with s e a p show ?thesis by simp
qed

end
